theory Spec2Isabelle
  imports Complex_Main "HOL-Library.Char_ord" "HOL-Library.List_Lexorder" "HOL-Library.Multiset"
begin

section \<open>Data model\<close>

text \<open>
  The module \<^verbatim>\<open>gaspy/tasks/atoms_generators.py\<close> defines four luigi tasks
  (\<^verbatim>\<open>GenerateGas\<close>, \<^verbatim>\<open>GenerateBulk\<close>, \<^verbatim>\<open>GenerateSlabs\<close>,
  \<^verbatim>\<open>GenerateAdsorptionSites\<close>) and the helper \<^verbatim>\<open>_make_slab_docs_from_structs\<close>.
  Floating-point numbers are idealised as reals; no property below depends on rounding.
\<close>

type_synonym vec3 = "real \<times> real \<times> real"

text \<open>
  Values that can appear in a Mongo document or in a luigi parameter: primitives,
  sequences (tuples, lists, arrays) and nested mappings with string keys.
\<close>

datatype pyval =
    PyNone
  | PyBool bool
  | PyInt int
  | PyFloat real
  | PyStr string
  | PySeq "pyval list"
  | PyDict "(string \<times> pyval) list"

text \<open>A document is a Python dict from field names to values.\<close>

type_synonym doc = "string \<rightharpoonup> pyval"

text \<open>An \<^verbatim>\<open>np.ndarray\<close> of length 3 and a 2-tuple of integers, as document values.\<close>

definition py_vec3 :: "vec3 \<Rightarrow> pyval" where
  "py_vec3 v = (case v of (x, y, z) \<Rightarrow> PySeq [PyFloat x, PyFloat y, PyFloat z])"

definition py_repeat :: "int \<times> int \<Rightarrow> pyval" where
  "py_repeat r = (case r of (nx, ny) \<Rightarrow> PySeq [PyInt nx, PyInt ny])"

text \<open>
  An \<^verbatim>\<open>ase.Atoms\<close> object, with the attributes this module reads or writes:
  the atoms (symbol, position, tag), the cell, the periodicity flags and the constraints.
\<close>

record atom =
  symbol :: string
  position :: vec3
  tag :: int

record 'c atoms =
  atom_list :: "atom list"
  cell :: "vec3 \<times> vec3 \<times> vec3"
  pbc :: "bool \<times> bool \<times> bool"
  constraints :: "'c list"

datatype error =
    KeyError string
  | RemoteLookupError string
  | NotFoundError
  | TypeError
  | IndexError

text \<open>
  The collaborators this module imports and calls but does not define
  (\<^verbatim>\<open>gaspy.atoms_operators\<close>, \<^verbatim>\<open>gaspy.mongo\<close>, pymatgen, ASE's g2 collection):
  they are parameters of the model. \<open>'s\<close> is the type of pymatgen structures,
  \<open>shift\<close> reads the attribute \<^verbatim>\<open>struct.shift\<close> of a slab structure.
\<close>

record ('s, 'c) collaborators =
  get_atoms :: "'s \<Rightarrow> 'c atoms"
  shift :: "'s \<Rightarrow> real"
  orient_atoms_upwards :: "'c atoms \<Rightarrow> 'c atoms"
  constrain_slab :: "'c atoms \<Rightarrow> 'c atoms"
  is_structure_invertible :: "'s \<Rightarrow> bool"
  flip_atoms :: "'c atoms \<Rightarrow> 'c atoms"
  make_slabs_from_bulk_atoms ::
    "'c atoms \<Rightarrow> int \<times> int \<times> int \<Rightarrow> (string \<times> pyval) list \<Rightarrow> (string \<times> pyval) list \<Rightarrow> 's list"
  tile_atoms :: "'c atoms \<Rightarrow> real \<Rightarrow> real \<Rightarrow> 'c atoms \<times> (int \<times> int)"
  find_adsorption_sites :: "'c atoms \<Rightarrow> vec3 list"
  make_doc_from_atoms :: "'c atoms \<Rightarrow> doc"
  make_atoms_from_doc :: "doc \<Rightarrow> 'c atoms"
  g2 :: "string \<rightharpoonup> 'c atoms"
  get_structure_by_material_id :: "string \<Rightarrow> error + 's"

section \<open>Slab documents\<close>

text \<open>
  One iteration of the loop of \<^verbatim>\<open>_make_slab_docs_from_structs\<close>: the document of
  the upward-oriented slab is appended, and a second one for the flipped slab when
  \<^verbatim>\<open>is_structure_invertible(struct) is True\<close>; the collaborator returns a Python bool.
  Each call of \<^verbatim>\<open>make_doc_from_atoms\<close> returns a new dict, to which the two fields are added.
\<close>

definition slab_loop_body :: "('s, 'c) collaborators \<Rightarrow> doc list \<Rightarrow> 's \<Rightarrow> doc list" where
  "slab_loop_body env docs struct =
     (let atoms0 = get_atoms env struct;
          atoms1 = orient_atoms_upwards env atoms0;
          atoms_constrained = constrain_slab env atoms1;
          doc0 = make_doc_from_atoms env atoms_constrained;
          doc1 = doc0(''shift'' \<mapsto> PyFloat (shift env struct));
          doc2 = doc1(''top'' \<mapsto> PyBool True);
          docs1 = docs @ [doc2]
      in if is_structure_invertible env struct
         then (let atoms_flipped = flip_atoms env atoms1;
                   atoms_flipped_constrained = constrain_slab env atoms_flipped;
                   doc_flipped0 = make_doc_from_atoms env atoms_flipped_constrained;
                   doc_flipped1 = doc_flipped0(''shift'' \<mapsto> PyFloat (shift env struct));
                   doc_flipped2 = doc_flipped1(''top'' \<mapsto> PyBool False)
               in docs1 @ [doc_flipped2])
         else docs1)"

fun slab_docs_loop :: "('s, 'c) collaborators \<Rightarrow> doc list \<Rightarrow> 's list \<Rightarrow> doc list" where
  "slab_docs_loop env docs [] = docs"
| "slab_docs_loop env docs (struct # rest) = slab_docs_loop env (slab_loop_body env docs struct) rest"

text \<open>\<^verbatim>\<open>_make_slab_docs_from_structs\<close> (an Isabelle name cannot start with an underscore).\<close>

definition make_slab_docs_from_structs :: "('s, 'c) collaborators \<Rightarrow> 's list \<Rightarrow> doc list" where
  "make_slab_docs_from_structs env slab_structures = slab_docs_loop env [] slab_structures"

section \<open>ASE objects on a heap\<close>

text \<open>
  \<^verbatim>\<open>GenerateAdsorptionSites.run\<close> mutates \<^verbatim>\<open>ase.Atoms\<close> objects in place
  (\<^verbatim>\<open>translate\<close>, \<^verbatim>\<open>atoms[-1].tag = 1\<close>) next to objects it must leave alone, so the
  objects live on a heap: a reference is an index into the list of allocated objects.
  A Python reference always points to an allocated object, so every reference the run
  holds is below the length of the heap.
\<close>

type_synonym 'c heap = "'c atoms list"

definition alloc :: "'c atoms \<Rightarrow> 'c heap \<Rightarrow> nat \<times> 'c heap" where
  "alloc a h = (length h, h @ [a])"

definition vadd :: "vec3 \<Rightarrow> vec3 \<Rightarrow> vec3" where
  "vadd p d = (case p of (x, y, z) \<Rightarrow> case d of (dx, dy, dz) \<Rightarrow> (x + dx, y + dy, z + dz))"

text \<open>\<^verbatim>\<open>ase.Atoms('U')\<close>: one uranium atom at the origin, untagged, no cell.\<close>

definition Atoms_U :: "'c atoms" where
  "Atoms_U = \<lparr>atom_list = [\<lparr>symbol = ''U'', position = (0, 0, 0), tag = 0\<rparr>],
             cell = ((0, 0, 0), (0, 0, 0), (0, 0, 0)),
             pbc = (False, False, False),
             constraints = []\<rparr>"

text \<open>\<^verbatim>\<open>atoms.translate(displacement)\<close>: adds the displacement to every position, in place.\<close>

definition Atoms_translate :: "nat \<Rightarrow> vec3 \<Rightarrow> 'c heap \<Rightarrow> 'c heap" where
  "Atoms_translate r d h =
     h[r := (h ! r)\<lparr>atom_list := map (\<lambda>a. a\<lparr>position := vadd (position a) d\<rparr>) (atom_list (h ! r))\<rparr>]"

text \<open>\<^verbatim>\<open>atoms.copy()\<close>: a new object with the same contents.\<close>

definition Atoms_copy :: "nat \<Rightarrow> 'c heap \<Rightarrow> nat \<times> 'c heap" where
  "Atoms_copy r h = alloc (h ! r) h"

text \<open>
  \<^verbatim>\<open>atoms + other\<close>: ASE copies the left operand and extends the copy with the atoms
  of the right one; cell, periodicity and constraints are those of the left operand.
\<close>

definition Atoms_add :: "nat \<Rightarrow> nat \<Rightarrow> 'c heap \<Rightarrow> nat \<times> 'c heap" where
  "Atoms_add r other h =
     (case Atoms_copy r h of (r', h') \<Rightarrow>
        (r', h'[r' := (h' ! r')\<lparr>atom_list := atom_list (h' ! r') @ atom_list (h' ! other)\<rparr>]))"

text \<open>\<^verbatim>\<open>atoms[-1].tag = t\<close>: in place; indexing an empty \<^verbatim>\<open>Atoms\<close> raises IndexError.\<close>

definition Atoms_set_last_tag :: "nat \<Rightarrow> int \<Rightarrow> 'c heap \<Rightarrow> error + 'c heap" where
  "Atoms_set_last_tag r t h =
     (case rev (atom_list (h ! r)) of
        [] \<Rightarrow> Inl IndexError
      | a # before \<Rightarrow> Inr (h[r := (h ! r)\<lparr>atom_list := rev before @ [a\<lparr>tag := t\<rparr>]\<rparr>]))"

section \<open>Adsorption sites\<close>

text \<open>
  The inner loop of \<^verbatim>\<open>GenerateAdsorptionSites.run\<close>: one document per site, made from
  \<^verbatim>\<open>slab_atoms_tiled.copy() + adsorbate\<close> with the last atom tagged 1.
\<close>

definition site_loop_body ::
  "('s, 'c) collaborators \<Rightarrow> nat \<Rightarrow> int \<times> int \<Rightarrow> doc list \<times> 'c heap \<Rightarrow> vec3
     \<Rightarrow> error + doc list \<times> 'c heap" where
  "site_loop_body env slab_atoms_tiled slab_repeat acc site =
     (case acc of (docs_adslabs, h) \<Rightarrow>
      case alloc Atoms_U h of (adsorbate, h1) \<Rightarrow>
      let h2 = Atoms_translate adsorbate site h1 in
      case Atoms_copy slab_atoms_tiled h2 of (copied, h3) \<Rightarrow>
      case Atoms_add copied adsorbate h3 of (adslab_atoms, h4) \<Rightarrow>
      case Atoms_set_last_tag adslab_atoms 1 h4 of
        Inl e \<Rightarrow> Inl e
      | Inr h5 \<Rightarrow>
          (let doc0 = make_doc_from_atoms env (h5 ! adslab_atoms);
               doc1 = doc0(''slab_repeat'' \<mapsto> py_repeat slab_repeat);
               doc2 = doc1(''adsorption_site'' \<mapsto> py_vec3 site)
           in Inr (docs_adslabs @ [doc2], h5)))"

fun sites_loop ::
  "('s, 'c) collaborators \<Rightarrow> nat \<Rightarrow> int \<times> int \<Rightarrow> doc list \<times> 'c heap \<Rightarrow> vec3 list
     \<Rightarrow> error + doc list \<times> 'c heap" where
  "sites_loop env slab_atoms_tiled slab_repeat acc [] = Inr acc"
| "sites_loop env slab_atoms_tiled slab_repeat acc (site # sites) =
     (case site_loop_body env slab_atoms_tiled slab_repeat acc site of
        Inl e \<Rightarrow> Inl e
      | Inr acc' \<Rightarrow> sites_loop env slab_atoms_tiled slab_repeat acc' sites)"

text \<open>The outer loop: each slab document is turned into atoms, tiled, and searched for sites.\<close>

definition adslab_loop_body ::
  "('s, 'c) collaborators \<Rightarrow> real \<Rightarrow> doc list \<times> 'c heap \<Rightarrow> doc
     \<Rightarrow> error + doc list \<times> 'c heap" where
  "adslab_loop_body env min_xy acc slab_doc =
     (case acc of (docs_adslabs, h) \<Rightarrow>
      case alloc (make_atoms_from_doc env slab_doc) h of (slab_atoms, h1) \<Rightarrow>
      case tile_atoms env (h1 ! slab_atoms) min_xy min_xy of (tiled, slab_repeat) \<Rightarrow>
      case alloc tiled h1 of (slab_atoms_tiled, h2) \<Rightarrow>
      let sites = find_adsorption_sites env (h2 ! slab_atoms_tiled)
      in sites_loop env slab_atoms_tiled slab_repeat (docs_adslabs, h2) sites)"

fun adslabs_loop ::
  "('s, 'c) collaborators \<Rightarrow> real \<Rightarrow> doc list \<times> 'c heap \<Rightarrow> doc list
     \<Rightarrow> error + doc list \<times> 'c heap" where
  "adslabs_loop env min_xy acc [] = Inr acc"
| "adslabs_loop env min_xy acc (slab_doc # slab_docs) =
     (case adslab_loop_body env min_xy acc slab_doc of
        Inl e \<Rightarrow> Inl e
      | Inr acc' \<Rightarrow> adslabs_loop env min_xy acc' slab_docs)"

text \<open>
  The documents \<^verbatim>\<open>GenerateAdsorptionSites.run\<close> builds from the unpickled slab
  documents, before it saves them. The objects it allocates are its own.
\<close>

definition make_adslab_docs ::
  "('s, 'c) collaborators \<Rightarrow> real \<Rightarrow> doc list \<Rightarrow> error + doc list" where
  "make_adslab_docs env min_xy slab_docs =
     (case adslabs_loop env min_xy ([], []) slab_docs of
        Inl e \<Rightarrow> Inl e
      | Inr (docs_adslabs, h) \<Rightarrow> Inr docs_adslabs)"

section \<open>Tasks and their parameters\<close>

text \<open>
  The task classes of this module, each with its luigi parameters, and
  \<^verbatim>\<open>FindBulk\<close>, which \<^verbatim>\<open>GenerateSlabs.requires\<close> constructs but which is defined in
  \<^verbatim>\<open>gaspy.tasks.calculation_finders\<close>. Parameters with a default are given explicitly.
\<close>

type_synonym settings = "(string \<times> pyval) list"

datatype task =
    GenerateGas (gas_name: string)
  | GenerateBulk (mpid: string)
  | FindBulk (mpid: string)
  | GenerateSlabs (mpid: string) (miller_indices: "int \<times> int \<times> int")
      (slab_generator_settings: settings) (get_slab_settings: settings)
  | GenerateAdsorptionSites (mpid: string) (miller_indices: "int \<times> int \<times> int")
      (slab_generator_settings: settings) (get_slab_settings: settings) (min_xy: real)

text \<open>
  \<^verbatim>\<open>requires\<close>: \<^verbatim>\<open>GenerateGas\<close> and \<^verbatim>\<open>GenerateBulk\<close> do not override luigi's default
  (no upstream task); what \<^verbatim>\<open>FindBulk\<close> requires is not declared in this module and is
  the parameter \<open>FindBulk_requires\<close>.
\<close>

fun requires :: "(string \<Rightarrow> task list) \<Rightarrow> task \<Rightarrow> task list" where
  "requires FindBulk_requires (GenerateGas gas) = []"
| "requires FindBulk_requires (GenerateBulk mp) = []"
| "requires FindBulk_requires (FindBulk mp) = FindBulk_requires mp"
| "requires FindBulk_requires (GenerateSlabs mp miller sgs gss) = [FindBulk mp]"
| "requires FindBulk_requires (GenerateAdsorptionSites mp miller sgs gss mxy) =
     [GenerateSlabs mp miller sgs gss]"

fun task_family :: "task \<Rightarrow> string" where
  "task_family (GenerateGas gas) = ''GenerateGas''"
| "task_family (GenerateBulk mp) = ''GenerateBulk''"
| "task_family (FindBulk mp) = ''FindBulk''"
| "task_family (GenerateSlabs mp miller sgs gss) = ''GenerateSlabs''"
| "task_family (GenerateAdsorptionSites mp miller sgs gss mxy) = ''GenerateAdsorptionSites''"

definition py_miller :: "int \<times> int \<times> int \<Rightarrow> pyval" where
  "py_miller m = (case m of (h, k, l) \<Rightarrow> PySeq [PyInt h, PyInt k, PyInt l])"

fun params :: "task \<Rightarrow> (string \<times> pyval) list" where
  "params (GenerateGas gas) = [(''gas_name'', PyStr gas)]"
| "params (GenerateBulk mp) = [(''mpid'', PyStr mp)]"
| "params (FindBulk mp) = [(''mpid'', PyStr mp)]"
| "params (GenerateSlabs mp miller sgs gss) =
     [(''mpid'', PyStr mp), (''miller_indices'', py_miller miller),
      (''slab_generator_settings'', PyDict sgs), (''get_slab_settings'', PyDict gss)]"
| "params (GenerateAdsorptionSites mp miller sgs gss mxy) =
     [(''mpid'', PyStr mp), (''miller_indices'', py_miller miller),
      (''slab_generator_settings'', PyDict sgs), (''get_slab_settings'', PyDict gss),
      (''min_xy'', PyFloat mxy)]"

section \<open>Task identity and the output store\<close>

text \<open>
  Modelled from the spec: the canonical form of a parameter value. The identity of a
  task is computed by luigi and by \<^verbatim>\<open>gaspy.tasks.core\<close>, neither of which is in this
  module; the spec (Task Identity) canonicalises each value, sequences element by
  element and nested mappings sorted by key.
\<close>

fun canonical :: "pyval \<Rightarrow> pyval" where
  "canonical (PySeq xs) = PySeq (map canonical xs)"
| "canonical (PyDict kvs) = PyDict (sort_key fst (map (\<lambda>(k, v). (k, canonical v)) kvs))"
| "canonical v = v"

type_synonym identity = "string \<times> (string \<times> pyval) list"

text \<open>
  Modelled from the spec: the identity of a task is its type name with its parameter
  name-value pairs, each value canonicalised (luigi's \<^verbatim>\<open>task_id\<close> is not in this module).
\<close>

definition identity :: "task \<Rightarrow> identity" where
  "identity t = (task_family t, map (\<lambda>(name, v). (name, canonical v)) (params t))"

datatype location = Location (record_type: string) (record_key: "(string \<times> pyval) list")

text \<open>
  Modelled from the spec: \<^verbatim>\<open>location_for(identity)\<close>, one record per (task type,
  canonical parameters) tuple.
\<close>

definition location_for :: "identity \<Rightarrow> location" where
  "location_for i = (case i of (family, ps) \<Rightarrow> Location family ps)"

text \<open>
  Modelled from the spec: \<^verbatim>\<open>make_task_output_object\<close> of \<^verbatim>\<open>gaspy.tasks.core\<close>, which every
  \<^verbatim>\<open>output\<close> method of this module returns: the handle of the location of the task's identity.
\<close>

definition make_task_output_object :: "task \<Rightarrow> location" where
  "make_task_output_object t = location_for (identity t)"

text \<open>The \<^verbatim>\<open>output\<close> method, the same in the four classes of this module.\<close>

definition task_output :: "task \<Rightarrow> location" where
  "task_output self = make_task_output_object self"

text \<open>
  Modelled from the spec: equal parameter values (Task Identity, parameters as value
  types). Two values are equal when they are the same up to the order in which mappings
  list their keys; the keys of a mapping are distinct.
\<close>

inductive same_value :: "pyval \<Rightarrow> pyval \<Rightarrow> bool" where
  same_refl: "same_value v v"
| same_seq: "list_all2 same_value xs ys \<Longrightarrow> same_value (PySeq xs) (PySeq ys)"
| same_dict: "distinct (map fst kvs) \<Longrightarrow> distinct (map fst kvs') \<Longrightarrow>
     (\<forall>k. rel_option same_value (map_of kvs k) (map_of kvs' k)) \<Longrightarrow>
     same_value (PyDict kvs) (PyDict kvs')"

text \<open>Modelled from the spec: equal parameter sets, name by name.\<close>

definition same_params :: "(string \<times> pyval) list \<Rightarrow> (string \<times> pyval) list \<Rightarrow> bool" where
  "same_params ps qs = list_all2 (\<lambda>p q. fst p = fst q \<and> same_value (snd p) (snd q)) ps qs"

text \<open>What a task saves: one document or a list of documents.\<close>

datatype payload = Doc doc | Docs "doc list"

text \<open>
  Modelled from the spec: the Output Store (section 4.2). Committed records are keyed by
  location; a staging artifact is kept apart from them and may hold a partial payload.
\<close>

datatype staged = Partial | Complete payload

record store =
  committed :: "location \<rightharpoonup> payload"
  staging :: "location \<rightharpoonup> staged"

text \<open>Modelled from the spec: a store with no record and no staging artifact.\<close>

definition empty_store :: store where
  "empty_store = \<lparr>committed = Map.empty, staging = Map.empty\<rparr>"

text \<open>
  Modelled from the spec: \<^verbatim>\<open>exists\<close> is true iff a committed record is present, and
  \<^verbatim>\<open>read\<close> fails with NotFoundError if there is none; both by location and by identity.
\<close>

definition exists_at :: "store \<Rightarrow> location \<Rightarrow> bool" where
  "exists_at st loc = (committed st loc \<noteq> None)"

definition exists_record :: "store \<Rightarrow> identity \<Rightarrow> bool" where
  "exists_record st i = exists_at st (location_for i)"

definition read_at :: "store \<Rightarrow> location \<Rightarrow> error + payload" where
  "read_at st loc = (case committed st loc of None \<Rightarrow> Inl NotFoundError | Some p \<Rightarrow> Inr p)"

definition read_record :: "store \<Rightarrow> identity \<Rightarrow> error + payload" where
  "read_record st i = read_at st (location_for i)"

text \<open>
  Modelled from the spec: \<^verbatim>\<open>write\<close> stages the payload, then publishes it to the
  committed location in one step.
\<close>

definition stage :: "store \<Rightarrow> identity \<Rightarrow> staged \<Rightarrow> store" where
  "stage st i s = st\<lparr>staging := (staging st)(location_for i \<mapsto> s)\<rparr>"

definition publish :: "store \<Rightarrow> identity \<Rightarrow> store" where
  "publish st i =
     (case staging st (location_for i) of
        Some (Complete p) \<Rightarrow>
          st\<lparr>committed := (committed st)(location_for i \<mapsto> p),
             staging := (staging st)(location_for i := None)\<rparr>
      | _ \<Rightarrow> st)"

definition write_record :: "store \<Rightarrow> identity \<Rightarrow> payload \<Rightarrow> store" where
  "write_record st i p = publish (stage st i (Complete p)) i"

text \<open>
  Modelled from the spec: a write interrupted before completion, either while the
  staging artifact is being written or after it is written and before it is published.
\<close>

datatype interruption = WhileStaging | BeforePublish

definition interrupted_write :: "interruption \<Rightarrow> store \<Rightarrow> identity \<Rightarrow> payload \<Rightarrow> store" where
  "interrupted_write point st i p =
     (case point of
        WhileStaging \<Rightarrow> stage st i Partial
      | BeforePublish \<Rightarrow> stage st i (Complete p))"

text \<open>
  Modelled from the spec: \<^verbatim>\<open>save_task_output\<close> of \<^verbatim>\<open>gaspy.tasks.core\<close> writes the
  result through the Output Store under the task's identity.
\<close>

definition save_task_output :: "store \<Rightarrow> task \<Rightarrow> payload \<Rightarrow> store" where
  "save_task_output st self out = write_record st (identity self) out"

section \<open>The run methods\<close>

text \<open>
  A run returns the error it raised, if any, and the store it leaves. Every run method
  saves as its last statement, so whatever raises before it leaves the store alone; the
  raises written out are the g2 lookup, the remote lookup, reading a dependency's output
  and indexing an empty \<^verbatim>\<open>Atoms\<close>. A dependency's output location holds a document for
  \<^verbatim>\<open>FindBulk\<close> and a list of documents for \<^verbatim>\<open>GenerateSlabs\<close>; unpickling an object of
  the other shape is reported as TypeError.
\<close>

text \<open>\<^verbatim>\<open>atoms.positions += c\<close>: adds \<open>c\<close> to every coordinate of every position.\<close>

definition positions_add :: "real \<Rightarrow> 'c atoms \<Rightarrow> 'c atoms" where
  "positions_add c a = a\<lparr>atom_list := map (\<lambda>x. x\<lparr>position := vadd (position x) (c, c, c)\<rparr>) (atom_list a)\<rparr>"

text \<open>\<^verbatim>\<open>atoms.cell = [a, b, c]\<close>: ASE turns three lengths into an orthorhombic cell.\<close>

definition cell_of_lengths :: "vec3 \<Rightarrow> vec3 \<times> vec3 \<times> vec3" where
  "cell_of_lengths l = (case l of (a, b, c) \<Rightarrow> ((a, 0, 0), (0, b, 0), (0, 0, c)))"

definition GenerateGas_run ::
  "('s, 'c) collaborators \<Rightarrow> string \<Rightarrow> store \<Rightarrow> error option \<times> store" where
  "GenerateGas_run env gas st =
     (case g2 env gas of
        None \<Rightarrow> (Some (KeyError gas), st)
      | Some atoms0 \<Rightarrow>
          (let atoms1 = positions_add 10 atoms0;
               atoms2 = atoms1\<lparr>cell := cell_of_lengths (20, 20, 20)\<rparr>;
               atoms3 = atoms2\<lparr>pbc := (True, True, True)\<rparr>;
               doc = make_doc_from_atoms env atoms3
           in (None, save_task_output st (GenerateGas gas) (Doc doc))))"

text \<open>
  \<^verbatim>\<open>GenerateBulk.run\<close>: the remote lookup, with the credential it reads, is the collaborator
  \<open>get_structure_by_material_id\<close>, which may fail.
\<close>

definition GenerateBulk_run ::
  "('s, 'c) collaborators \<Rightarrow> string \<Rightarrow> store \<Rightarrow> error option \<times> store" where
  "GenerateBulk_run env mp st =
     (case get_structure_by_material_id env mp of
        Inl e \<Rightarrow> (Some e, st)
      | Inr structure \<Rightarrow>
          (let atoms = get_atoms env structure;
               doc = make_doc_from_atoms env atoms
           in (None, save_task_output st (GenerateBulk mp) (Doc doc))))"

text \<open>
  \<^verbatim>\<open>self.input()\<close> is the output of the task that \<^verbatim>\<open>requires\<close> returns:
  \<^verbatim>\<open>FindBulk(mpid)\<close> for \<^verbatim>\<open>GenerateSlabs\<close>, the \<^verbatim>\<open>GenerateSlabs\<close> task for
  \<^verbatim>\<open>GenerateAdsorptionSites\<close>.
\<close>

definition GenerateSlabs_run ::
  "('s, 'c) collaborators \<Rightarrow> string \<Rightarrow> int \<times> int \<times> int \<Rightarrow> settings \<Rightarrow> settings
     \<Rightarrow> store \<Rightarrow> error option \<times> store" where
  "GenerateSlabs_run env mp miller sgs gss st =
     (case read_at st (task_output (FindBulk mp)) of
        Inl e \<Rightarrow> (Some e, st)
      | Inr (Docs ds) \<Rightarrow> (Some TypeError, st)
      | Inr (Doc bulk_doc) \<Rightarrow>
          (let bulk_atoms = make_atoms_from_doc env bulk_doc;
               slab_structs = make_slabs_from_bulk_atoms env bulk_atoms miller sgs gss;
               slab_docs = make_slab_docs_from_structs env slab_structs
           in (None, save_task_output st (GenerateSlabs mp miller sgs gss) (Docs slab_docs))))"

definition GenerateAdsorptionSites_run ::
  "('s, 'c) collaborators \<Rightarrow> string \<Rightarrow> int \<times> int \<times> int \<Rightarrow> settings \<Rightarrow> settings \<Rightarrow> real
     \<Rightarrow> store \<Rightarrow> error option \<times> store" where
  "GenerateAdsorptionSites_run env mp miller sgs gss mxy st =
     (case read_at st (task_output (GenerateSlabs mp miller sgs gss)) of
        Inl e \<Rightarrow> (Some e, st)
      | Inr (Doc d) \<Rightarrow> (Some TypeError, st)
      | Inr (Docs slab_docs) \<Rightarrow>
          (case make_adslab_docs env mxy slab_docs of
             Inl e \<Rightarrow> (Some e, st)
           | Inr docs_adslabs \<Rightarrow>
               (None, save_task_output st (GenerateAdsorptionSites mp miller sgs gss mxy)
                        (Docs docs_adslabs))))"

text \<open>The run method of each task; that of \<^verbatim>\<open>FindBulk\<close> is a parameter.\<close>

fun run ::
  "('s, 'c) collaborators \<Rightarrow> (string \<Rightarrow> store \<Rightarrow> error option \<times> store) \<Rightarrow> task
     \<Rightarrow> store \<Rightarrow> error option \<times> store" where
  "run env FindBulk_run (GenerateGas gas) = GenerateGas_run env gas"
| "run env FindBulk_run (GenerateBulk mp) = GenerateBulk_run env mp"
| "run env FindBulk_run (FindBulk mp) = FindBulk_run mp"
| "run env FindBulk_run (GenerateSlabs mp miller sgs gss) = GenerateSlabs_run env mp miller sgs gss"
| "run env FindBulk_run (GenerateAdsorptionSites mp miller sgs gss mxy) =
     GenerateAdsorptionSites_run env mp miller sgs gss mxy"

section \<open>The resolver\<close>

text \<open>
  Modelled from the spec: the Task Node and the Dependency Resolver (sections 3 and 4.3);
  in the repository this is luigi's scheduler. A node carries its identity, the nodes of
  its declared dependencies and its \<^verbatim>\<open>execute\<close>; the dependency graph, built by calling
  \<^verbatim>\<open>dependencies()\<close> recursively, is a finite tree here, so it has no cycle.
\<close>

datatype node =
  Node (node_identity: identity) (node_dependencies: "node list")
       (node_execute: "store \<Rightarrow> error option \<times> store")

text \<open>
  Modelled from the spec: the status of a task node, the cause of a failure in the
  failure report, and the state of one run: the store, the identities whose
  \<^verbatim>\<open>execute\<close> was invoked, in order, and the failures reported so far.
\<close>

datatype status = Pending | Running | Done | Failed

datatype cause = ExecutionError error | DependencyFailed

record run_state =
  out_store :: store
  executed :: "identity list"
  failures :: "(identity \<times> cause) list"

text \<open>
  Modelled from the spec: nodes are visited leaves first. A node whose record exists is
  done without running; otherwise all its dependencies must be done, then it executes.
  A node with a failed dependency fails without running, and a node that failed earlier
  in the same run is not run again.
\<close>

fun resolve :: "node \<Rightarrow> run_state \<Rightarrow> status \<times> run_state"
  and resolve_all :: "node list \<Rightarrow> run_state \<Rightarrow> bool \<times> run_state" where
  "resolve (Node i deps exec) rs =
     (case resolve_all deps rs of (deps_done, rs1) \<Rightarrow>
        if exists_record (out_store rs1) i then (Done, rs1)
        else if i \<in> fst ` set (failures rs1) then (Failed, rs1)
        else if \<not> deps_done then (Failed, rs1\<lparr>failures := failures rs1 @ [(i, DependencyFailed)]\<rparr>)
        else (case exec (out_store rs1) of
                (Some e, st') \<Rightarrow>
                  (Failed, rs1\<lparr>out_store := st', executed := executed rs1 @ [i],
                                failures := failures rs1 @ [(i, ExecutionError e)]\<rparr>)
              | (None, st') \<Rightarrow>
                  (Done, rs1\<lparr>out_store := st', executed := executed rs1 @ [i]\<rparr>)))"
| "resolve_all [] rs = (True, rs)"
| "resolve_all (d # ds) rs =
     (case resolve d rs of (s, rs1) \<Rightarrow>
      case resolve_all ds rs1 of (rest_done, rs2) \<Rightarrow> (s = Done \<and> rest_done, rs2))"

text \<open>Modelled from the spec: one resolve-and-run sequence on a root task, from a given store.\<close>

definition resolve_and_run :: "node \<Rightarrow> store \<Rightarrow> status \<times> run_state" where
  "resolve_and_run root_node st = resolve root_node \<lparr>out_store = st, executed = [], failures = []\<rparr>"

text \<open>The identities and the nodes of a dependency tree.\<close>

fun identities :: "node \<Rightarrow> identity set" where
  "identities (Node i deps exec) = insert i (\<Union>d \<in> set deps. identities d)"

fun nodes_of :: "node \<Rightarrow> node set" where
  "nodes_of (Node i deps exec) = insert (Node i deps exec) (\<Union>d \<in> set deps. nodes_of d)"

text \<open>
  Modelled from the spec: the contract of \<^verbatim>\<open>execute\<close> (section 4.1). A task writes no
  record but its own, and writes it exactly when it succeeds.
\<close>

definition writes_own_record :: "node \<Rightarrow> bool" where
  "writes_own_record n =
     (\<forall>st. case node_execute n st of
             (None, st') \<Rightarrow> (\<exists>p. committed st' = (committed st)(location_for (node_identity n) \<mapsto> p))
           | (Some e, st') \<Rightarrow> committed st' = committed st)"

text \<open>
  Modelled from the spec: the Task Node of a task of this module, with the identity of
  the task, the nodes of the tasks its \<^verbatim>\<open>requires\<close> returns and its run method. The node
  of a \<^verbatim>\<open>FindBulk\<close> task, with whatever it depends on, is the parameter \<open>FindBulk_node\<close>.
\<close>

definition GenerateSlabs_node ::
  "('s, 'c) collaborators \<Rightarrow> (string \<Rightarrow> node) \<Rightarrow> string \<Rightarrow> int \<times> int \<times> int \<Rightarrow> settings \<Rightarrow> settings
     \<Rightarrow> node" where
  "GenerateSlabs_node env FindBulk_node mp miller sgs gss =
     Node (identity (GenerateSlabs mp miller sgs gss)) [FindBulk_node mp]
          (GenerateSlabs_run env mp miller sgs gss)"

fun task_node :: "('s, 'c) collaborators \<Rightarrow> (string \<Rightarrow> node) \<Rightarrow> task \<Rightarrow> node" where
  "task_node env FindBulk_node (GenerateGas gas) =
     Node (identity (GenerateGas gas)) [] (GenerateGas_run env gas)"
| "task_node env FindBulk_node (GenerateBulk mp) =
     Node (identity (GenerateBulk mp)) [] (GenerateBulk_run env mp)"
| "task_node env FindBulk_node (FindBulk mp) = FindBulk_node mp"
| "task_node env FindBulk_node (GenerateSlabs mp miller sgs gss) =
     GenerateSlabs_node env FindBulk_node mp miller sgs gss"
| "task_node env FindBulk_node (GenerateAdsorptionSites mp miller sgs gss mxy) =
     Node (identity (GenerateAdsorptionSites mp miller sgs gss mxy))
          [GenerateSlabs_node env FindBulk_node mp miller sgs gss]
          (GenerateAdsorptionSites_run env mp miller sgs gss mxy)"

section \<open>Synthetic collaborators\<close>

text \<open>
  A small set of collaborators on which the functions above can be evaluated: structures
  are numbered, structure 0 is the invertible one, and the only known bulk is mp-30.
\<close>

definition example_atoms :: "nat \<Rightarrow> nat atoms" where
  "example_atoms n =
     \<lparr>atom_list = [\<lparr>symbol = ''Cu'', position = (0, 0, real n), tag = 0\<rparr>,
                  \<lparr>symbol = ''Cu'', position = (1, 1, real n + 2), tag = 0\<rparr>],
      cell = ((2, 0, 0), (0, 2, 0), (0, 0, 10)),
      pbc = (True, True, False),
      constraints = []\<rparr>"

definition example_doc :: "nat atoms \<Rightarrow> doc" where
  "example_doc a =
     [''symbols'' \<mapsto> PySeq (map (\<lambda>x. PyStr (symbol x)) (atom_list a)),
      ''positions'' \<mapsto> PySeq (map (\<lambda>x. py_vec3 (position x)) (atom_list a)),
      ''tags'' \<mapsto> PySeq (map (\<lambda>x. PyInt (tag x)) (atom_list a))]"

definition example_collaborators :: "(nat, nat) collaborators" where
  "example_collaborators =
     \<lparr>get_atoms = example_atoms,
      shift = (\<lambda>s. real s / 4),
      orient_atoms_upwards = (\<lambda>a. a),
      constrain_slab = (\<lambda>a. a\<lparr>constraints := [0]\<rparr>),
      is_structure_invertible = (\<lambda>s. s = 0),
      flip_atoms = (\<lambda>a. a\<lparr>atom_list := map (\<lambda>x. x\<lparr>position := (case position x of (px, py, pz) \<Rightarrow> (px, py, - pz))\<rparr>) (atom_list a)\<rparr>),
      make_slabs_from_bulk_atoms = (\<lambda>a miller sgs gss. [0, 1]),
      tile_atoms = (\<lambda>a mx my. (a, (1, 1))),
      find_adsorption_sites = (\<lambda>a. [(0, 0, 3), (1, 1, 3)]),
      make_doc_from_atoms = example_doc,
      make_atoms_from_doc = (\<lambda>d. example_atoms 0),
      g2 = [''CO'' \<mapsto> example_atoms 0],
      get_structure_by_material_id = (\<lambda>mp. if mp = ''mp-30'' then Inr 7 else Inl (RemoteLookupError mp))\<rparr>"

text \<open>
  A synthetic \<^verbatim>\<open>FindBulk\<close> node, which saves a bulk document and depends on nothing, and
  two root nodes: the adsorption-site pipeline of the bulk mp-30, and the retrieval of a
  bulk that the synthetic database does not know.
\<close>

definition example_FindBulk_node :: "string \<Rightarrow> node" where
  "example_FindBulk_node mp =
     Node (identity (FindBulk mp)) []
       (\<lambda>st. (None, save_task_output st (FindBulk mp) (Doc (example_doc (example_atoms 0)))))"

definition example_root :: node where
  "example_root =
     task_node example_collaborators example_FindBulk_node
       (GenerateAdsorptionSites ''mp-30'' (1, 1, 1) [] [] 5)"

definition example_failing_root :: node where
  "example_failing_root =
     task_node example_collaborators example_FindBulk_node (GenerateBulk ''mp-0'')"

section \<open>Properties of slab-document generation\<close>

lemma slab_loop_body_append: "slab_loop_body env docs struct = docs @ slab_loop_body env [] struct"
  by (simp add: slab_loop_body_def Let_def)

lemma slab_docs_loop_concat:
  "slab_docs_loop env docs structs = docs @ concat (map (slab_loop_body env []) structs)"
proof (induction structs arbitrary: docs)
  case Nil
  show ?case by simp
next
  case (Cons s rest)
  have "slab_docs_loop env docs (s # rest) = slab_docs_loop env (slab_loop_body env docs s) rest"
    by simp
  also have "\<dots> = slab_loop_body env docs s @ concat (map (slab_loop_body env []) rest)"
    by (rule Cons.IH)
  also have "\<dots> = docs @ concat (map (slab_loop_body env []) (s # rest))"
    using slab_loop_body_append [of env docs s] by simp
  finally show ?case .
qed

lemma make_slab_docs_concat:
  "make_slab_docs_from_structs env structs = concat (map (slab_loop_body env []) structs)"
  by (simp add: make_slab_docs_from_structs_def slab_docs_loop_concat)

lemma ex_shift: "shift example_collaborators s = real s / 4"
  by (simp add: example_collaborators_def)
lemma ex_inv: "is_structure_invertible example_collaborators s = (s = 0)"
  by (simp add: example_collaborators_def)

text \<open>
  C1. For every list of slab structures, \<^verbatim>\<open>_make_slab_docs_from_structs\<close> emits the
  documents of each structure in turn. A structure whose invertibility check succeeds
  gives exactly two documents with that structure's shift, the first with top True, made
  from the oriented slab, the second with top False, made from the flipped slab; a
  structure whose check fails gives exactly one document, with top True.
\<close>

theorem slab_docs_fan_out:
  "make_slab_docs_from_structs env structs = concat (map (\<lambda>s. make_slab_docs_from_structs env [s]) structs)
   \<and> (\<forall>struct. is_structure_invertible env struct \<longrightarrow>
         (\<exists>doc doc_flipped.
            make_slab_docs_from_structs env [struct] = [doc, doc_flipped]
            \<and> doc ''shift'' = Some (PyFloat (shift env struct))
            \<and> doc_flipped ''shift'' = Some (PyFloat (shift env struct))
            \<and> doc ''top'' = Some (PyBool True)
            \<and> doc_flipped ''top'' = Some (PyBool False)
            \<and> doc \<noteq> doc_flipped
            \<and> (\<forall>field. field \<noteq> ''shift'' \<and> field \<noteq> ''top'' \<longrightarrow>
                  doc field =
                    make_doc_from_atoms env
                      (constrain_slab env (orient_atoms_upwards env (get_atoms env struct))) field
                  \<and> doc_flipped field =
                    make_doc_from_atoms env
                      (constrain_slab env
                         (flip_atoms env (orient_atoms_upwards env (get_atoms env struct)))) field)))
   \<and> (\<forall>struct. \<not> is_structure_invertible env struct \<longrightarrow>
         (\<exists>doc. make_slab_docs_from_structs env [struct] = [doc]
            \<and> doc ''shift'' = Some (PyFloat (shift env struct))
            \<and> doc ''top'' = Some (PyBool True)))"
proof (intro conjI allI impI)
  show "make_slab_docs_from_structs env structs =
        concat (map (\<lambda>s. make_slab_docs_from_structs env [s]) structs)"
    by (simp add: make_slab_docs_concat)
next
  fix struct
  assume inv: "is_structure_invertible env struct"
  let ?a = "orient_atoms_upwards env (get_atoms env struct)"
  let ?d = "(make_doc_from_atoms env (constrain_slab env ?a))
              (''shift'' \<mapsto> PyFloat (shift env struct), ''top'' \<mapsto> PyBool True)"
  let ?f = "(make_doc_from_atoms env (constrain_slab env (flip_atoms env ?a)))
              (''shift'' \<mapsto> PyFloat (shift env struct), ''top'' \<mapsto> PyBool False)"
  have docs: "make_slab_docs_from_structs env [struct] = [?d, ?f]"
    using inv by (simp add: make_slab_docs_from_structs_def slab_loop_body_def Let_def)
  have neq: "?d \<noteq> ?f"
  proof
    assume "?d = ?f"
    then have "?d ''top'' = ?f ''top''" by (rule arg_cong)
    then show False by simp
  qed
  show "\<exists>doc doc_flipped.
            make_slab_docs_from_structs env [struct] = [doc, doc_flipped]
            \<and> doc ''shift'' = Some (PyFloat (shift env struct))
            \<and> doc_flipped ''shift'' = Some (PyFloat (shift env struct))
            \<and> doc ''top'' = Some (PyBool True)
            \<and> doc_flipped ''top'' = Some (PyBool False)
            \<and> doc \<noteq> doc_flipped
            \<and> (\<forall>field. field \<noteq> ''shift'' \<and> field \<noteq> ''top'' \<longrightarrow>
                  doc field =
                    make_doc_from_atoms env
                      (constrain_slab env (orient_atoms_upwards env (get_atoms env struct))) field
                  \<and> doc_flipped field =
                    make_doc_from_atoms env
                      (constrain_slab env
                         (flip_atoms env (orient_atoms_upwards env (get_atoms env struct)))) field)"
    apply (rule exI [of _ ?d], rule exI [of _ ?f])
    using docs neq by simp
next
  fix struct
  assume ninv: "\<not> is_structure_invertible env struct"
  show "\<exists>doc. make_slab_docs_from_structs env [struct] = [doc]
            \<and> doc ''shift'' = Some (PyFloat (shift env struct))
            \<and> doc ''top'' = Some (PyBool True)"
    using ninv by (simp add: make_slab_docs_from_structs_def slab_loop_body_def Let_def)
qed



theorem slab_docs_fan_out_witness:
  "is_structure_invertible example_collaborators 0
   \<and> \<not> is_structure_invertible example_collaborators 1
   \<and> length (make_slab_docs_from_structs example_collaborators [0]) = 2
   \<and> length (make_slab_docs_from_structs example_collaborators [1]) = 1
   \<and> length (make_slab_docs_from_structs example_collaborators [0, 1]) = 3"
proof -
  note fan = slab_docs_fan_out [of example_collaborators "[0, 1]"]
  have i0: "is_structure_invertible example_collaborators 0"
    and i1: "\<not> is_structure_invertible example_collaborators 1"
    by (simp_all add: example_collaborators_def)
  from fan [THEN conjunct2, THEN conjunct1, rule_format, OF i0]
  obtain d f where two: "make_slab_docs_from_structs example_collaborators [0] = [d, f]"
    by (elim exE conjE)
  from fan [THEN conjunct2, THEN conjunct2, rule_format, OF i1]
  obtain d' where one: "make_slab_docs_from_structs example_collaborators [1] = [d']"
    by (elim exE conjE)
  have "make_slab_docs_from_structs example_collaborators [0, 1] =
     make_slab_docs_from_structs example_collaborators [0] @ make_slab_docs_from_structs example_collaborators [1]"
    using fan [THEN conjunct1] by simp
  with two one i0 i1 show ?thesis by simp
qed


text \<open>
  C8. The output keeps the order of the input structures, and the document with top
  True of an invertible structure comes immediately before its flipped counterpart.
\<close>

theorem slab_docs_order:
  "make_slab_docs_from_structs env (before @ after) =
     make_slab_docs_from_structs env before @ make_slab_docs_from_structs env after
   \<and> map (\<lambda>doc. (doc ''shift'', doc ''top'')) (make_slab_docs_from_structs env structs) =
     concat (map (\<lambda>struct.
        if is_structure_invertible env struct
        then [(Some (PyFloat (shift env struct)), Some (PyBool True)),
              (Some (PyFloat (shift env struct)), Some (PyBool False))]
        else [(Some (PyFloat (shift env struct)), Some (PyBool True))]) structs)"
proof
  show "make_slab_docs_from_structs env (before @ after) =
     make_slab_docs_from_structs env before @ make_slab_docs_from_structs env after"
    by (simp add: make_slab_docs_concat)
next
  have one: "map (\<lambda>doc. (doc ''shift'', doc ''top'')) (slab_loop_body env [] s) =
     (if is_structure_invertible env s
        then [(Some (PyFloat (shift env s)), Some (PyBool True)),
              (Some (PyFloat (shift env s)), Some (PyBool False))]
        else [(Some (PyFloat (shift env s)), Some (PyBool True))])" for s
    by (simp add: slab_loop_body_def Let_def)
  show "map (\<lambda>doc. (doc ''shift'', doc ''top'')) (make_slab_docs_from_structs env structs) =
     concat (map (\<lambda>struct.
        if is_structure_invertible env struct
        then [(Some (PyFloat (shift env struct)), Some (PyBool True)),
              (Some (PyFloat (shift env struct)), Some (PyBool False))]
        else [(Some (PyFloat (shift env struct)), Some (PyBool True))]) structs)"
    unfolding make_slab_docs_concat map_concat map_map comp_def one ..
qed



theorem slab_docs_order_witness:
  "map (\<lambda>doc. (doc ''shift'', doc ''top'')) (make_slab_docs_from_structs example_collaborators [1, 0, 2]) =
     [(Some (PyFloat (1/4)), Some (PyBool True)),
      (Some (PyFloat 0), Some (PyBool True)),
      (Some (PyFloat 0), Some (PyBool False)),
      (Some (PyFloat (1/2)), Some (PyBool True))]"
  using slab_docs_order [of example_collaborators "[]" "[]" "[1, 0, 2]", THEN conjunct2]
  by (simp add: ex_shift ex_inv)



section \<open>Properties of adsorption-site generation\<close>

lemma vadd_origin: "vadd (0, 0, 0) site = site"
  by (cases site) (simp add: vadd_def)

lemma site_loop_body_result:
  assumes "slab_atoms_tiled < length h"
  shows "site_loop_body env slab_atoms_tiled slab_repeat (docs, h) site =
     Inr (docs @ [(make_doc_from_atoms env
                    ((h ! slab_atoms_tiled)\<lparr>atom_list := atom_list (h ! slab_atoms_tiled)
                        @ [\<lparr>symbol = ''U'', position = site, tag = 1\<rparr>]\<rparr>))
                  (''slab_repeat'' \<mapsto> py_repeat slab_repeat,
                   ''adsorption_site'' \<mapsto> py_vec3 site)],
          h @ [Atoms_U\<lparr>atom_list := [\<lparr>symbol = ''U'', position = site, tag = 0\<rparr>]\<rparr>,
               h ! slab_atoms_tiled,
               (h ! slab_atoms_tiled)\<lparr>atom_list := atom_list (h ! slab_atoms_tiled)
                        @ [\<lparr>symbol = ''U'', position = site, tag = 1\<rparr>]\<rparr>])"
  using assms
  by (simp add: site_loop_body_def alloc_def Atoms_translate_def Atoms_copy_def Atoms_add_def
      Atoms_set_last_tag_def Let_def nth_append Atoms_U_def vadd_origin list_update_append)

lemma sites_loop_result:
  assumes "slab_atoms_tiled < length h"
  shows "\<exists>h'. sites_loop env slab_atoms_tiled slab_repeat (docs, h) sites =
           Inr (docs @ map (\<lambda>site. (make_doc_from_atoms env
                    ((h ! slab_atoms_tiled)\<lparr>atom_list := atom_list (h ! slab_atoms_tiled)
                        @ [\<lparr>symbol = ''U'', position = site, tag = 1\<rparr>]\<rparr>))
                  (''slab_repeat'' \<mapsto> py_repeat slab_repeat,
                   ''adsorption_site'' \<mapsto> py_vec3 site)) sites, h')
         \<and> length h \<le> length h' \<and> (\<forall>r < length h. h' ! r = h ! r)"
  using assms
proof (induction sites arbitrary: docs h)
  case Nil
  then show ?case by simp
next
  case (Cons site sites)
  let ?t = "h ! slab_atoms_tiled"
  let ?h1 = "h @ [Atoms_U\<lparr>atom_list := [\<lparr>symbol = ''U'', position = site, tag = 0\<rparr>]\<rparr>,
               ?t, ?t\<lparr>atom_list := atom_list ?t @ [\<lparr>symbol = ''U'', position = site, tag = 1\<rparr>]\<rparr>]"
  have lt: "slab_atoms_tiled < length ?h1" using Cons.prems by simp
  have same: "?h1 ! slab_atoms_tiled = ?t" using Cons.prems by (simp add: nth_append)
  from Cons.IH [OF lt, of "docs @ [(make_doc_from_atoms env
                    (?t\<lparr>atom_list := atom_list ?t @ [\<lparr>symbol = ''U'', position = site, tag = 1\<rparr>]\<rparr>))
                  (''slab_repeat'' \<mapsto> py_repeat slab_repeat,
                   ''adsorption_site'' \<mapsto> py_vec3 site)]"]
  obtain h' where
    run: "sites_loop env slab_atoms_tiled slab_repeat
            (docs @ [(make_doc_from_atoms env
                    (?t\<lparr>atom_list := atom_list ?t @ [\<lparr>symbol = ''U'', position = site, tag = 1\<rparr>]\<rparr>))
                  (''slab_repeat'' \<mapsto> py_repeat slab_repeat,
                   ''adsorption_site'' \<mapsto> py_vec3 site)], ?h1) sites =
           Inr ((docs @ [(make_doc_from_atoms env
                    (?t\<lparr>atom_list := atom_list ?t @ [\<lparr>symbol = ''U'', position = site, tag = 1\<rparr>]\<rparr>))
                  (''slab_repeat'' \<mapsto> py_repeat slab_repeat,
                   ''adsorption_site'' \<mapsto> py_vec3 site)]) @
                map (\<lambda>site. (make_doc_from_atoms env
                    ((?h1 ! slab_atoms_tiled)\<lparr>atom_list := atom_list (?h1 ! slab_atoms_tiled)
                        @ [\<lparr>symbol = ''U'', position = site, tag = 1\<rparr>]\<rparr>))
                  (''slab_repeat'' \<mapsto> py_repeat slab_repeat,
                   ''adsorption_site'' \<mapsto> py_vec3 site)) sites, h')"
    and len: "length ?h1 \<le> length h'"
    and frame: "\<forall>r < length ?h1. h' ! r = ?h1 ! r"
    by blast
  have frame': "\<forall>r < length h. h' ! r = h ! r"
  proof (intro allI impI)
    fix r assume r: "r < length h"
    then have "h' ! r = ?h1 ! r" using frame by simp
    also have "\<dots> = h ! r" using r by (simp add: nth_append)
    finally show "h' ! r = h ! r" .
  qed
  have len': "length h \<le> length h'" using len by simp
  show ?case
    apply (rule exI [of _ h'])
    using run len' frame' Cons.prems
    by (simp add: site_loop_body_result same del: fun_upd_apply)
qed


lemma adslab_loop_body_result:
  assumes "tile_atoms env (make_atoms_from_doc env slab_doc) mxy mxy = (tiled, slab_repeat)"
  shows "\<exists>h'. adslab_loop_body env mxy (docs, h) slab_doc =
           Inr (docs @ map (\<lambda>site. (make_doc_from_atoms env
                    (tiled\<lparr>atom_list := atom_list tiled
                        @ [\<lparr>symbol = ''U'', position = site, tag = 1\<rparr>]\<rparr>))
                  (''slab_repeat'' \<mapsto> py_repeat slab_repeat,
                   ''adsorption_site'' \<mapsto> py_vec3 site)) (find_adsorption_sites env tiled), h')"
proof -
  let ?h2 = "h @ [make_atoms_from_doc env slab_doc, tiled]"
  have lt: "Suc (length h) < length ?h2" by simp
  have at: "?h2 ! Suc (length h) = tiled" by (simp add: nth_append)
  from sites_loop_result [OF lt, of env slab_repeat docs "find_adsorption_sites env tiled"]
  obtain h' where "sites_loop env (Suc (length h)) slab_repeat (docs, ?h2) (find_adsorption_sites env tiled) =
       Inr (docs @ map (\<lambda>site. (make_doc_from_atoms env
                    ((?h2 ! Suc (length h))\<lparr>atom_list := atom_list (?h2 ! Suc (length h))
                        @ [\<lparr>symbol = ''U'', position = site, tag = 1\<rparr>]\<rparr>))
                  (''slab_repeat'' \<mapsto> py_repeat slab_repeat,
                   ''adsorption_site'' \<mapsto> py_vec3 site)) (find_adsorption_sites env tiled), h')"
    by blast
  then show ?thesis
    using assms by (simp add: adslab_loop_body_def alloc_def at nth_append del: fun_upd_apply)
qed

lemma adslabs_loop_result:
  "\<exists>h'. adslabs_loop env mxy (docs, h) slab_docs =
     Inr (docs @ concat (map (\<lambda>slab_doc.
        case tile_atoms env (make_atoms_from_doc env slab_doc) mxy mxy of
          (tiled, slab_repeat) \<Rightarrow>
            map (\<lambda>site. (make_doc_from_atoms env
                    (tiled\<lparr>atom_list := atom_list tiled
                        @ [\<lparr>symbol = ''U'', position = site, tag = 1\<rparr>]\<rparr>))
                  (''slab_repeat'' \<mapsto> py_repeat slab_repeat,
                   ''adsorption_site'' \<mapsto> py_vec3 site)) (find_adsorption_sites env tiled))
        slab_docs), h')"
proof (induction slab_docs arbitrary: docs h)
  case Nil
  show ?case by simp
next
  case (Cons slab_doc slab_docs)
  obtain tiled slab_repeat where
    tile: "tile_atoms env (make_atoms_from_doc env slab_doc) mxy mxy = (tiled, slab_repeat)"
    by (cases "tile_atoms env (make_atoms_from_doc env slab_doc) mxy mxy")
  from adslab_loop_body_result [OF tile, of docs h]
  obtain h1 where body: "adslab_loop_body env mxy (docs, h) slab_doc =
           Inr (docs @ map (\<lambda>site. (make_doc_from_atoms env
                    (tiled\<lparr>atom_list := atom_list tiled
                        @ [\<lparr>symbol = ''U'', position = site, tag = 1\<rparr>]\<rparr>))
                  (''slab_repeat'' \<mapsto> py_repeat slab_repeat,
                   ''adsorption_site'' \<mapsto> py_vec3 site)) (find_adsorption_sites env tiled), h1)"
    by blast
  from Cons.IH [of "docs @ map (\<lambda>site. (make_doc_from_atoms env
                    (tiled\<lparr>atom_list := atom_list tiled
                        @ [\<lparr>symbol = ''U'', position = site, tag = 1\<rparr>]\<rparr>))
                  (''slab_repeat'' \<mapsto> py_repeat slab_repeat,
                   ''adsorption_site'' \<mapsto> py_vec3 site)) (find_adsorption_sites env tiled)" h1]
  obtain h' where rest: "adslabs_loop env mxy (docs @ map (\<lambda>site. (make_doc_from_atoms env
                    (tiled\<lparr>atom_list := atom_list tiled
                        @ [\<lparr>symbol = ''U'', position = site, tag = 1\<rparr>]\<rparr>))
                  (''slab_repeat'' \<mapsto> py_repeat slab_repeat,
                   ''adsorption_site'' \<mapsto> py_vec3 site)) (find_adsorption_sites env tiled), h1) slab_docs =
     Inr ((docs @ map (\<lambda>site. (make_doc_from_atoms env
                    (tiled\<lparr>atom_list := atom_list tiled
                        @ [\<lparr>symbol = ''U'', position = site, tag = 1\<rparr>]\<rparr>))
                  (''slab_repeat'' \<mapsto> py_repeat slab_repeat,
                   ''adsorption_site'' \<mapsto> py_vec3 site)) (find_adsorption_sites env tiled)) @ concat (map (\<lambda>slab_doc.
        case tile_atoms env (make_atoms_from_doc env slab_doc) mxy mxy of
          (tiled, slab_repeat) \<Rightarrow>
            map (\<lambda>site. (make_doc_from_atoms env
                    (tiled\<lparr>atom_list := atom_list tiled
                        @ [\<lparr>symbol = ''U'', position = site, tag = 1\<rparr>]\<rparr>))
                  (''slab_repeat'' \<mapsto> py_repeat slab_repeat,
                   ''adsorption_site'' \<mapsto> py_vec3 site)) (find_adsorption_sites env tiled))
        slab_docs), h')"
    by blast
  show ?case
    apply (rule exI [of _ h'])
    using body rest tile by (simp del: fun_upd_apply)
qed

lemma make_adslab_docs_result:
  "make_adslab_docs env mxy slab_docs =
     Inr (concat (map (\<lambda>slab_doc.
        case tile_atoms env (make_atoms_from_doc env slab_doc) mxy mxy of
          (tiled, slab_repeat) \<Rightarrow>
            map (\<lambda>site. (make_doc_from_atoms env
                    (tiled\<lparr>atom_list := atom_list tiled
                        @ [\<lparr>symbol = ''U'', position = site, tag = 1\<rparr>]\<rparr>))
                  (''slab_repeat'' \<mapsto> py_repeat slab_repeat,
                   ''adsorption_site'' \<mapsto> py_vec3 site)) (find_adsorption_sites env tiled))
        slab_docs))"
proof -
  from adslabs_loop_result [of env mxy "[]" "[]" slab_docs]
  obtain h' where "adslabs_loop env mxy ([], []) slab_docs =
     Inr ([] @ concat (map (\<lambda>slab_doc.
        case tile_atoms env (make_atoms_from_doc env slab_doc) mxy mxy of
          (tiled, slab_repeat) \<Rightarrow>
            map (\<lambda>site. (make_doc_from_atoms env
                    (tiled\<lparr>atom_list := atom_list tiled
                        @ [\<lparr>symbol = ''U'', position = site, tag = 1\<rparr>]\<rparr>))
                  (''slab_repeat'' \<mapsto> py_repeat slab_repeat,
                   ''adsorption_site'' \<mapsto> py_vec3 site)) (find_adsorption_sites env tiled))
        slab_docs), h')"
    by blast
  then show ?thesis by (simp add: make_adslab_docs_def del: fun_upd_apply)
qed

text \<open>
  C2. For every list of slab documents, \<^verbatim>\<open>GenerateAdsorptionSites.run\<close> builds, for each
  slab, exactly as many documents as \<^verbatim>\<open>find_adsorption_sites\<close> returns sites on the tiled
  slab. The document of a site has that site as its \<^verbatim>\<open>adsorption_site\<close>, the repeat
  factors returned by \<^verbatim>\<open>tile_atoms\<close> as its \<^verbatim>\<open>slab_repeat\<close>, and is otherwise the document
  of the tiled slab's atoms followed by a uranium atom at the site, tagged 1.
\<close>

theorem adsorption_sites_fan_out:
  "\<exists>per_slab.
     make_adslab_docs env mxy slab_docs = Inr (concat per_slab)
     \<and> length per_slab = length slab_docs
     \<and> (\<forall>i < length slab_docs.
          case tile_atoms env (make_atoms_from_doc env (slab_docs ! i)) mxy mxy of
            (tiled, slab_repeat) \<Rightarrow>
              length (per_slab ! i) = length (find_adsorption_sites env tiled)
              \<and> (\<forall>j < length (find_adsorption_sites env tiled).
                    (per_slab ! i ! j) ''adsorption_site'' =
                       Some (py_vec3 (find_adsorption_sites env tiled ! j))
                  \<and> (per_slab ! i ! j) ''slab_repeat'' = Some (py_repeat slab_repeat)
                  \<and> (\<exists>adslab_atoms.
                        atom_list adslab_atoms = atom_list tiled
                          @ [\<lparr>symbol = ''U'', position = find_adsorption_sites env tiled ! j, tag = 1\<rparr>]
                        \<and> tag (last (atom_list adslab_atoms)) = 1
                        \<and> (\<forall>field. field \<noteq> ''slab_repeat'' \<and> field \<noteq> ''adsorption_site'' \<longrightarrow>
                              (per_slab ! i ! j) field = make_doc_from_atoms env adslab_atoms field))))"
proof -
  let ?per = "\<lambda>slab_doc.
        case tile_atoms env (make_atoms_from_doc env slab_doc) mxy mxy of
          (tiled, slab_repeat) \<Rightarrow>
            map (\<lambda>site. (make_doc_from_atoms env
                    (tiled\<lparr>atom_list := atom_list tiled
                        @ [\<lparr>symbol = ''U'', position = site, tag = 1\<rparr>]\<rparr>))
                  (''slab_repeat'' \<mapsto> py_repeat slab_repeat,
                   ''adsorption_site'' \<mapsto> py_vec3 site)) (find_adsorption_sites env tiled)"
  have each: "case tile_atoms env (make_atoms_from_doc env (slab_docs ! i)) mxy mxy of
            (tiled, slab_repeat) \<Rightarrow>
              length (map ?per slab_docs ! i) = length (find_adsorption_sites env tiled)
              \<and> (\<forall>j < length (find_adsorption_sites env tiled).
                    (map ?per slab_docs ! i ! j) ''adsorption_site'' =
                       Some (py_vec3 (find_adsorption_sites env tiled ! j))
                  \<and> (map ?per slab_docs ! i ! j) ''slab_repeat'' = Some (py_repeat slab_repeat)
                  \<and> (\<exists>adslab_atoms.
                        atom_list adslab_atoms = atom_list tiled
                          @ [\<lparr>symbol = ''U'', position = find_adsorption_sites env tiled ! j, tag = 1\<rparr>]
                        \<and> tag (last (atom_list adslab_atoms)) = 1
                        \<and> (\<forall>field. field \<noteq> ''slab_repeat'' \<and> field \<noteq> ''adsorption_site'' \<longrightarrow>
                              (map ?per slab_docs ! i ! j) field = make_doc_from_atoms env adslab_atoms field)))"
    if i: "i < length slab_docs" for i
  proof -
    obtain tiled slab_repeat where
      tile: "tile_atoms env (make_atoms_from_doc env (slab_docs ! i)) mxy mxy = (tiled, slab_repeat)"
      by (cases "tile_atoms env (make_atoms_from_doc env (slab_docs ! i)) mxy mxy")
    have ex: "\<exists>adslab_atoms::'b atoms.
                        atom_list adslab_atoms = atom_list tiled
                          @ [\<lparr>symbol = ''U'', position = site, tag = 1\<rparr>]
                        \<and> tag (last (atom_list adslab_atoms)) = 1
                        \<and> (\<forall>field. field \<noteq> ''slab_repeat'' \<and> field \<noteq> ''adsorption_site'' \<longrightarrow>
                              ((make_doc_from_atoms env
                    (tiled\<lparr>atom_list := atom_list tiled
                        @ [\<lparr>symbol = ''U'', position = site, tag = 1\<rparr>]\<rparr>))
                  (''slab_repeat'' \<mapsto> py_repeat slab_repeat,
                   ''adsorption_site'' \<mapsto> py_vec3 site)) field = make_doc_from_atoms env adslab_atoms field)" for site
      by (rule exI [of _ "tiled\<lparr>atom_list := atom_list tiled
                        @ [\<lparr>symbol = ''U'', position = site, tag = 1\<rparr>]\<rparr>"]) simp
    show ?thesis
      using i tile ex by (simp del: fun_upd_apply) simp
  qed
  show ?thesis
    apply (rule exI [of _ "map ?per slab_docs"])
    apply (intro conjI allI impI)
      apply (rule make_adslab_docs_result)
     apply simp
    apply (rule each)
    apply assumption
    done
qed


lemma ex_tile: "tile_atoms example_collaborators a mx my = (a, (1, 1))"
  by (simp add: example_collaborators_def)
lemma ex_sites: "find_adsorption_sites example_collaborators a = [(0, 0, 3), (1, 1, 3)]"
  by (simp add: example_collaborators_def)

theorem adsorption_sites_fan_out_witness:
  "\<exists>docs. make_adslab_docs example_collaborators 5 [example_doc (example_atoms 0)] = Inr docs
     \<and> length docs = 2
     \<and> (docs ! 1) ''adsorption_site'' = Some (py_vec3 (1, 1, 3))
     \<and> (docs ! 1) ''slab_repeat'' = Some (py_repeat (1, 1))"
proof -
  from adsorption_sites_fan_out [of example_collaborators 5 "[example_doc (example_atoms 0)]"]
  obtain per_slab where
    run: "make_adslab_docs example_collaborators 5 [example_doc (example_atoms 0)] = Inr (concat per_slab)"
    and len: "length per_slab = 1"
    and each: "\<forall>i < 1.
          case tile_atoms example_collaborators
                 (make_atoms_from_doc example_collaborators ([example_doc (example_atoms 0)] ! i)) 5 5 of
            (tiled, slab_repeat) \<Rightarrow>
              length (per_slab ! i) = length (find_adsorption_sites example_collaborators tiled)
              \<and> (\<forall>j < length (find_adsorption_sites example_collaborators tiled).
                    (per_slab ! i ! j) ''adsorption_site'' =
                       Some (py_vec3 (find_adsorption_sites example_collaborators tiled ! j))
                  \<and> (per_slab ! i ! j) ''slab_repeat'' = Some (py_repeat slab_repeat)
                  \<and> (\<exists>adslab_atoms :: nat atoms.
                        atom_list adslab_atoms = atom_list tiled
                          @ [\<lparr>symbol = ''U'', position = find_adsorption_sites example_collaborators tiled ! j, tag = 1\<rparr>]
                        \<and> tag (last (atom_list adslab_atoms)) = 1
                        \<and> (\<forall>field. field \<noteq> ''slab_repeat'' \<and> field \<noteq> ''adsorption_site'' \<longrightarrow>
                              (per_slab ! i ! j) field = make_doc_from_atoms example_collaborators adslab_atoms field)))"
    by auto
  from len obtain ds where per: "per_slab = [ds]"
    by (cases per_slab) auto
  from each [rule_format, of 0] have
    l2: "length ds = 2"
    and at: "\<forall>j < 2. (ds ! j) ''adsorption_site'' = Some (py_vec3 ([(0, 0, 3), (1, 1, 3)] ! j))
                 \<and> (ds ! j) ''slab_repeat'' = Some (py_repeat (1, 1))"
    by (simp_all add: per ex_tile ex_sites del: fun_upd_apply)
  from at [rule_format, of 1] have "(ds ! 1) ''adsorption_site'' = Some (py_vec3 (1, 1, 3))"
    and "(ds ! 1) ''slab_repeat'' = Some (py_repeat (1, 1))"
    by simp_all
  with run l2 per show ?thesis by simp
qed

lemma map2_map_same: "map2 f (map g xs) xs = map (\<lambda>x. f (g x) x) xs"
  by (induction xs) simp_all

text \<open>
  C9. Placing the markers mutates no object that existed before the loop over the sites,
  in particular not the tiled slab: every document is made from a new object whose atoms
  but the last are the atoms of the tiled slab and whose last atom is the marker.
\<close>

theorem marker_leaves_tiled_slab:
  assumes "slab_atoms_tiled < length h"
  shows "\<exists>h' adslabs.
           sites_loop env slab_atoms_tiled slab_repeat (docs, h) sites =
             Inr (docs @ map2 (\<lambda>adslab_atoms site.
                                 (make_doc_from_atoms env adslab_atoms)
                                   (''slab_repeat'' \<mapsto> py_repeat slab_repeat,
                                    ''adsorption_site'' \<mapsto> py_vec3 site)) adslabs sites, h')
           \<and> length adslabs = length sites
           \<and> h' ! slab_atoms_tiled = h ! slab_atoms_tiled
           \<and> (\<forall>r < length h. h' ! r = h ! r)
           \<and> (\<forall>i < length sites.
                 butlast (atom_list (adslabs ! i)) = atom_list (h ! slab_atoms_tiled)
                 \<and> last (atom_list (adslabs ! i)) = \<lparr>symbol = ''U'', position = sites ! i, tag = 1\<rparr>
                 \<and> cell (adslabs ! i) = cell (h ! slab_atoms_tiled)
                 \<and> pbc (adslabs ! i) = pbc (h ! slab_atoms_tiled)
                 \<and> constraints (adslabs ! i) = constraints (h ! slab_atoms_tiled))"
proof -
  let ?t = "h ! slab_atoms_tiled"
  let ?A = "\<lambda>site. ?t\<lparr>atom_list := atom_list ?t @ [\<lparr>symbol = ''U'', position = site, tag = 1\<rparr>]\<rparr>"
  from sites_loop_result [OF assms, of env slab_repeat docs sites]
  obtain h' where
    run: "sites_loop env slab_atoms_tiled slab_repeat (docs, h) sites =
           Inr (docs @ map (\<lambda>site. (make_doc_from_atoms env (?A site))
                  (''slab_repeat'' \<mapsto> py_repeat slab_repeat,
                   ''adsorption_site'' \<mapsto> py_vec3 site)) sites, h')"
    and frame: "\<forall>r < length h. h' ! r = h ! r"
    by blast
  have same: "h' ! slab_atoms_tiled = ?t" using frame assms by simp
  have run': "sites_loop env slab_atoms_tiled slab_repeat (docs, h) sites =
             Inr (docs @ map2 (\<lambda>adslab_atoms site.
                                 (make_doc_from_atoms env adslab_atoms)
                                   (''slab_repeat'' \<mapsto> py_repeat slab_repeat,
                                    ''adsorption_site'' \<mapsto> py_vec3 site)) (map ?A sites) sites, h')"
    unfolding run map2_map_same ..
  show ?thesis
    apply (rule exI [of _ h'], rule exI [of _ "map ?A sites"])
    apply (intro conjI)
        apply (rule run')
       apply simp
      apply (rule same)
     apply (rule frame)
    apply simp
    done
qed

theorem marker_leaves_tiled_slab_witness:
  "(0::nat) < length [example_atoms 0]
   \<and> (\<exists>h' adslabs.
         sites_loop example_collaborators 0 (1, 1) ([], [example_atoms 0]) [(0, 0, 3), (1, 1, 3)] =
             Inr ([] @ map2 (\<lambda>adslab_atoms site.
                                 (make_doc_from_atoms example_collaborators adslab_atoms)
                                   (''slab_repeat'' \<mapsto> py_repeat (1, 1),
                                    ''adsorption_site'' \<mapsto> py_vec3 site)) adslabs [(0, 0, 3), (1, 1, 3)], h')
         \<and> length adslabs = 2
         \<and> h' ! 0 = example_atoms 0
         \<and> butlast (atom_list (adslabs ! 0)) = atom_list (example_atoms 0)
         \<and> butlast (atom_list (adslabs ! 1)) = atom_list (example_atoms 0)
         \<and> last (atom_list (adslabs ! 1)) = \<lparr>symbol = ''U'', position = (1, 1, 3), tag = 1\<rparr>)"
proof -
  have pre: "(0::nat) < length [example_atoms 0]" by simp
  from marker_leaves_tiled_slab [OF pre, of example_collaborators "(1, 1)" "[]" "[(0, 0, 3), (1, 1, 3)]"]
  obtain h' adslabs where
    run: "sites_loop example_collaborators 0 (1, 1) ([], [example_atoms 0]) [(0, 0, 3), (1, 1, 3)] =
             Inr ([] @ map2 (\<lambda>adslab_atoms site.
                                 (make_doc_from_atoms example_collaborators adslab_atoms)
                                   (''slab_repeat'' \<mapsto> py_repeat (1, 1),
                                    ''adsorption_site'' \<mapsto> py_vec3 site)) adslabs [(0, 0, 3), (1, 1, 3)], h')"
    and len: "length adslabs = length [(0::real, 0::real, 3::real), (1, 1, 3)]"
    and same: "h' ! 0 = [example_atoms 0] ! 0"
    and each: "\<forall>i < length [(0::real, 0::real, 3::real), (1, 1, 3)].
                 butlast (atom_list (adslabs ! i)) = atom_list ([example_atoms 0] ! 0)
                 \<and> last (atom_list (adslabs ! i)) = \<lparr>symbol = ''U'', position = [(0, 0, 3), (1, 1, 3)] ! i, tag = 1\<rparr>
                 \<and> cell (adslabs ! i) = cell ([example_atoms 0] ! 0)
                 \<and> pbc (adslabs ! i) = pbc ([example_atoms 0] ! 0)
                 \<and> constraints (adslabs ! i) = constraints ([example_atoms 0] ! 0)"
    by blast
  from each [rule_format, of 0] each [rule_format, of 1]
  have e: "butlast (atom_list (adslabs ! 0)) = atom_list (example_atoms 0)"
    "butlast (atom_list (adslabs ! 1)) = atom_list (example_atoms 0)"
    "last (atom_list (adslabs ! 1)) = \<lparr>symbol = ''U'', position = (1, 1, 3), tag = 1\<rparr>"
    by simp_all
  show ?thesis
    apply (rule conjI [OF pre])
    apply (rule exI [of _ h'], rule exI [of _ adslabs])
    using run len same e by simp
qed


section \<open>Properties of the run methods and of the output store\<close>

lemma location_for_inject: "location_for i = location_for j \<longleftrightarrow> i = j"
  by (cases i, cases j) (simp add: location_for_def)

lemma committed_write_record:
  "committed (write_record st i p) = (committed st)(location_for i \<mapsto> p)"
  by (simp add: write_record_def publish_def stage_def)

lemma committed_save_task_output:
  "committed (save_task_output st t p) = (committed st)(task_output t \<mapsto> p)"
  by (simp add: save_task_output_def committed_write_record task_output_def
      make_task_output_object_def)

lemma committed_interrupted_write:
  "committed (interrupted_write point st i p) = committed st"
  by (cases point) (simp_all add: interrupted_write_def stage_def)

lemma read_at_save_task_output:
  "read_at (save_task_output st t p) (task_output t) = Inr p"
  by (simp add: read_at_def committed_save_task_output)

lemma ex_g2: "g2 example_collaborators ''CO'' = Some (example_atoms 0)"
  by (simp add: example_collaborators_def)

text \<open>
  C10. For every gas name that the g2 collection resolves, \<^verbatim>\<open>GenerateGas.run\<close> succeeds and
  saves a single document: that of the g2 molecule with 10 added to every coordinate of
  every position, an orthorhombic cell of 20 by 20 by 20, and periodic boundary
  conditions True in the three directions.
\<close>

theorem GenerateGas_document:
  assumes "g2 env gas = Some molecule"
  shows "\<exists>atoms_out.
           GenerateGas_run env gas st =
             (None, save_task_output st (GenerateGas gas) (Doc (make_doc_from_atoms env atoms_out)))
           \<and> read_at (snd (GenerateGas_run env gas st)) (task_output (GenerateGas gas)) =
               Inr (Doc (make_doc_from_atoms env atoms_out))
           \<and> map symbol (atom_list atoms_out) = map symbol (atom_list molecule)
           \<and> map tag (atom_list atoms_out) = map tag (atom_list molecule)
           \<and> map position (atom_list atoms_out) =
               map (\<lambda>a. case position a of (x, y, z) \<Rightarrow> (x + 10, y + 10, z + 10)) (atom_list molecule)
           \<and> cell atoms_out = ((20, 0, 0), (0, 20, 0), (0, 0, 20))
           \<and> pbc atoms_out = (True, True, True)
           \<and> constraints atoms_out = constraints molecule"
proof -
  let ?out = "(positions_add 10 molecule)\<lparr>cell := cell_of_lengths (20, 20, 20), pbc := (True, True, True)\<rparr>"
  have run: "GenerateGas_run env gas st =
             (None, save_task_output st (GenerateGas gas) (Doc (make_doc_from_atoms env ?out)))"
    using assms by (simp add: GenerateGas_run_def Let_def)
  have pos: "map position (atom_list ?out) =
               map (\<lambda>a. case position a of (x, y, z) \<Rightarrow> (x + 10, y + 10, z + 10)) (atom_list molecule)"
    by (simp add: positions_add_def vadd_def comp_def split_def)
  show ?thesis
    apply (rule exI [of _ ?out])
    apply (intro conjI)
           apply (rule run)
          apply (simp add: run read_at_save_task_output)
         apply (simp add: positions_add_def comp_def)
        apply (simp add: positions_add_def comp_def)
       apply (rule pos)
      apply (simp add: cell_of_lengths_def)
     apply simp
    apply (simp add: positions_add_def)
    done
qed

theorem GenerateGas_document_witness:
  "g2 example_collaborators ''CO'' = Some (example_atoms 0)
   \<and> (\<exists>atoms_out.
         GenerateGas_run example_collaborators ''CO'' empty_store =
             (None, save_task_output empty_store (GenerateGas ''CO'')
                      (Doc (make_doc_from_atoms example_collaborators atoms_out)))
         \<and> map position (atom_list atoms_out) = [(10, 10, 10), (11, 11, 12)]
         \<and> cell atoms_out = ((20, 0, 0), (0, 20, 0), (0, 0, 20))
         \<and> pbc atoms_out = (True, True, True))"
proof -
  from GenerateGas_document [OF ex_g2, of empty_store]
  obtain atoms_out :: "nat atoms" where
    "GenerateGas_run example_collaborators ''CO'' empty_store =
             (None, save_task_output empty_store (GenerateGas ''CO'')
                      (Doc (make_doc_from_atoms example_collaborators atoms_out)))"
    and "map position (atom_list atoms_out) =
               map (\<lambda>a. case position a of (x, y, z) \<Rightarrow> (x + 10, y + 10, z + 10)) (atom_list (example_atoms 0))"
    and "cell atoms_out = ((20, 0, 0), (0, 20, 0), (0, 0, 20))"
    and "pbc atoms_out = (True, True, True)"
    by blast
  then show ?thesis
    using ex_g2 by (auto simp add: example_atoms_def)
qed

text \<open>
  C6. The dependency list of a task is a function of its parameters alone:
  \<^verbatim>\<open>GenerateSlabs\<close> declares exactly one upstream task, \<^verbatim>\<open>FindBulk\<close> for its mpid, and
  \<^verbatim>\<open>GenerateAdsorptionSites\<close> exactly one, the \<^verbatim>\<open>GenerateSlabs\<close> task with the same mpid,
  miller_indices, slab_generator_settings and get_slab_settings. These lists are the
  dependencies of the nodes that the resolver walks.
\<close>

theorem declared_dependencies:
  "requires FindBulk_requires (GenerateSlabs mp miller sgs gss) = [FindBulk mp]
   \<and> requires FindBulk_requires (GenerateAdsorptionSites mp miller sgs gss mxy) =
       [GenerateSlabs mp miller sgs gss]
   \<and> (\<forall>upstream \<in> set (requires FindBulk_requires (GenerateAdsorptionSites mp miller sgs gss mxy)).
         task_family upstream = ''GenerateSlabs''
         \<and> mpid upstream = mp \<and> miller_indices upstream = miller
         \<and> slab_generator_settings upstream = sgs \<and> get_slab_settings upstream = gss)
   \<and> (\<forall>upstream \<in> set (requires FindBulk_requires (GenerateSlabs mp miller sgs gss)).
         task_family upstream = ''FindBulk'' \<and> mpid upstream = mp)
   \<and> node_dependencies (task_node env FindBulk_node (GenerateSlabs mp miller sgs gss)) =
       map (task_node env FindBulk_node) (requires FindBulk_requires (GenerateSlabs mp miller sgs gss))
   \<and> node_dependencies (task_node env FindBulk_node (GenerateAdsorptionSites mp miller sgs gss mxy)) =
       map (task_node env FindBulk_node)
         (requires FindBulk_requires (GenerateAdsorptionSites mp miller sgs gss mxy))"
  by (simp add: GenerateSlabs_node_def)

theorem declared_dependencies_witness:
  "requires (\<lambda>mp. []) (GenerateSlabs ''mp-30'' (1, 1, 1) [(''min_slab_size'', PyFloat 7)] [(''tol'', PyFloat 0.1)])
     = [FindBulk ''mp-30'']
   \<and> requires (\<lambda>mp. []) (GenerateAdsorptionSites ''mp-30'' (1, 1, 1) [(''min_slab_size'', PyFloat 7)] [(''tol'', PyFloat 0.1)] 4.5)
     = [GenerateSlabs ''mp-30'' (1, 1, 1) [(''min_slab_size'', PyFloat 7)] [(''tol'', PyFloat 0.1)]]"
  using declared_dependencies [of "\<lambda>mp. []" "''mp-30''" "(1, 1, 1)" "[(''min_slab_size'', PyFloat 7)]"
      "[(''tol'', PyFloat 0.1)]" "4.5" example_collaborators "\<lambda>mp. Node (identity (FindBulk mp)) [] (\<lambda>st. (None, st))"]
  by blast


lemma GenerateGas_run_outcome:
  "GenerateGas_run env gas st =
     (case (case g2 env gas of
              None \<Rightarrow> Inl (KeyError gas)
            | Some a \<Rightarrow> Inr (Doc (make_doc_from_atoms env
                 ((positions_add 10 a)\<lparr>cell := cell_of_lengths (20, 20, 20), pbc := (True, True, True)\<rparr>)))) of
        Inl e \<Rightarrow> (Some e, st)
      | Inr result \<Rightarrow> (None, save_task_output st (GenerateGas gas) result))"
  by (simp add: GenerateGas_run_def Let_def split: option.split)

lemma GenerateBulk_run_outcome:
  "GenerateBulk_run env mp st =
     (case (case get_structure_by_material_id env mp of
              Inl e \<Rightarrow> Inl e
            | Inr structure \<Rightarrow> Inr (Doc (make_doc_from_atoms env (get_atoms env structure)))) of
        Inl e \<Rightarrow> (Some e, st)
      | Inr result \<Rightarrow> (None, save_task_output st (GenerateBulk mp) result))"
  by (simp add: GenerateBulk_run_def Let_def split: sum.split)

lemma GenerateSlabs_run_outcome:
  "GenerateSlabs_run env mp miller sgs gss st =
     (case (case read_at st (task_output (FindBulk mp)) of
              Inl e \<Rightarrow> Inl e
            | Inr (Docs ds) \<Rightarrow> Inl TypeError
            | Inr (Doc bulk_doc) \<Rightarrow>
                Inr (Docs (make_slab_docs_from_structs env
                   (make_slabs_from_bulk_atoms env (make_atoms_from_doc env bulk_doc) miller sgs gss)))) of
        Inl e \<Rightarrow> (Some e, st)
      | Inr result \<Rightarrow> (None, save_task_output st (GenerateSlabs mp miller sgs gss) result))"
  by (simp add: GenerateSlabs_run_def Let_def split: sum.split payload.split)

lemma GenerateAdsorptionSites_run_outcome:
  "GenerateAdsorptionSites_run env mp miller sgs gss mxy st =
     (case (case read_at st (task_output (GenerateSlabs mp miller sgs gss)) of
              Inl e \<Rightarrow> Inl e
            | Inr (Doc d) \<Rightarrow> Inl TypeError
            | Inr (Docs slab_docs) \<Rightarrow>
                (case make_adslab_docs env mxy slab_docs of
                   Inl e \<Rightarrow> Inl e
                 | Inr docs_adslabs \<Rightarrow> Inr (Docs docs_adslabs))) of
        Inl e \<Rightarrow> (Some e, st)
      | Inr result \<Rightarrow>
          (None, save_task_output st (GenerateAdsorptionSites mp miller sgs gss mxy) result))"
  by (simp add: GenerateAdsorptionSites_run_def Let_def split: sum.split payload.split)

text \<open>
  C7. The outcome of running a task of this module, the error raised or the result
  saved, is a function of what the Output Store returns at the output locations of the
  task's declared dependencies (and of the task's parameters): nothing else of the store
  is used, and a dependency's result reaches the task only by being read back.
\<close>

theorem run_uses_only_declared_inputs:
  assumes "\<forall>mp. t \<noteq> FindBulk mp"
  shows "\<exists>compute. \<forall>st.
           run env FindBulk_run t st =
             (case compute (map (\<lambda>dep. read_at st (task_output dep)) (requires FindBulk_requires t)) of
                Inl e \<Rightarrow> (Some e, st)
              | Inr result \<Rightarrow> (None, save_task_output st t result))"
proof (cases t)
  case (GenerateGas gas)
  show ?thesis
    unfolding GenerateGas run.simps requires.simps GenerateGas_run_outcome
    by (rule exI [of _ "\<lambda>inputs. case g2 env gas of
              None \<Rightarrow> Inl (KeyError gas)
            | Some a \<Rightarrow> Inr (Doc (make_doc_from_atoms env
                 ((positions_add 10 a)\<lparr>cell := cell_of_lengths (20, 20, 20), pbc := (True, True, True)\<rparr>)))"])
      simp
next
  case (GenerateBulk mp)
  show ?thesis
    unfolding GenerateBulk run.simps requires.simps GenerateBulk_run_outcome
    by (rule exI [of _ "\<lambda>inputs. case get_structure_by_material_id env mp of
              Inl e \<Rightarrow> Inl e
            | Inr structure \<Rightarrow> Inr (Doc (make_doc_from_atoms env (get_atoms env structure)))"])
      simp
next
  case (FindBulk mp)
  with assms show ?thesis by simp
next
  case (GenerateSlabs mp miller sgs gss)
  show ?thesis
    unfolding GenerateSlabs run.simps requires.simps GenerateSlabs_run_outcome
    by (rule exI [of _ "\<lambda>inputs. case hd inputs of
              Inl e \<Rightarrow> Inl e
            | Inr (Docs ds) \<Rightarrow> Inl TypeError
            | Inr (Doc bulk_doc) \<Rightarrow>
                Inr (Docs (make_slab_docs_from_structs env
                   (make_slabs_from_bulk_atoms env (make_atoms_from_doc env bulk_doc) miller sgs gss)))"])
      simp
next
  case (GenerateAdsorptionSites mp miller sgs gss mxy)
  show ?thesis
    unfolding GenerateAdsorptionSites run.simps requires.simps GenerateAdsorptionSites_run_outcome
    by (rule exI [of _ "\<lambda>inputs. case hd inputs of
              Inl e \<Rightarrow> Inl e
            | Inr (Doc d) \<Rightarrow> Inl TypeError
            | Inr (Docs slab_docs) \<Rightarrow>
                (case make_adslab_docs env mxy slab_docs of
                   Inl e \<Rightarrow> Inl e
                 | Inr docs_adslabs \<Rightarrow> Inr (Docs docs_adslabs))"])
      simp
qed

theorem run_uses_only_declared_inputs_witness:
  "(\<forall>mp. GenerateSlabs ''mp-30'' (1, 1, 1) [] [] \<noteq> FindBulk mp)
   \<and> (\<exists>compute. \<forall>st.
         run example_collaborators (\<lambda>mp st. (None, st)) (GenerateSlabs ''mp-30'' (1, 1, 1) [] []) st =
           (case compute [read_at st (task_output (FindBulk ''mp-30''))] of
              Inl e \<Rightarrow> (Some e, st)
            | Inr result \<Rightarrow> (None, save_task_output st (GenerateSlabs ''mp-30'' (1, 1, 1) [] []) result)))"
proof -
  have pre: "\<forall>mp. GenerateSlabs ''mp-30'' (1, 1, 1) [] [] \<noteq> FindBulk mp" by simp
  from run_uses_only_declared_inputs [OF pre, of example_collaborators "\<lambda>mp st. (None, st)" "\<lambda>mp. []"]
  show ?thesis using pre by simp
qed


lemma run_failure_keeps_store:
  assumes "\<forall>m. t \<noteq> FindBulk m" and "fst (run env FindBulk_run t st) \<noteq> None"
  shows "snd (run env FindBulk_run t st) = st"
proof (cases t)
  case (GenerateGas gas)
  with assms(2) show ?thesis
    by (simp add: GenerateGas_run_outcome split: option.splits)
next
  case (GenerateBulk mp)
  with assms(2) show ?thesis
    by (simp add: GenerateBulk_run_outcome split: sum.splits)
next
  case (FindBulk mp)
  with assms(1) show ?thesis by simp
next
  case (GenerateSlabs mp miller sgs gss)
  with assms(2) show ?thesis
    by (simp add: GenerateSlabs_run_outcome split: sum.splits payload.splits)
next
  case (GenerateAdsorptionSites mp miller sgs gss mxy)
  with assms(2) show ?thesis
    by (simp add: GenerateAdsorptionSites_run_outcome split: sum.splits payload.splits)
qed

lemma ex_lookup_fails:
  "get_structure_by_material_id example_collaborators ''mp-0'' = Inl (RemoteLookupError ''mp-0'')"
  by (simp add: example_collaborators_def)

text \<open>
  C5. A run that raises, such as \<^verbatim>\<open>GenerateBulk.run\<close> on a failed remote lookup, leaves the
  store as it was. A write interrupted before completion changes no committed record, so
  a record that did not exist still does not; after a completed write the record exists
  and reading it returns the written payload.
\<close>

theorem no_partial_record:
  "(get_structure_by_material_id env mp = Inl e \<longrightarrow> GenerateBulk_run env mp st = (Some e, st))
   \<and> ((\<forall>m. t \<noteq> FindBulk m) \<and> fst (run env FindBulk_run t st) \<noteq> None \<longrightarrow>
        snd (run env FindBulk_run t st) = st)
   \<and> committed (interrupted_write point st i p) = committed st
   \<and> (\<not> exists_record st i \<longrightarrow> \<not> exists_record (interrupted_write point st i p) i)
   \<and> exists_record (write_record st i p) i
   \<and> read_record (write_record st i p) i = Inr p"
proof (intro conjI impI)
  assume "get_structure_by_material_id env mp = Inl e"
  then show "GenerateBulk_run env mp st = (Some e, st)"
    by (simp add: GenerateBulk_run_def)
next
  assume "(\<forall>m. t \<noteq> FindBulk m) \<and> fst (run env FindBulk_run t st) \<noteq> None"
  then show "snd (run env FindBulk_run t st) = st"
    using run_failure_keeps_store by blast
next
  show "committed (interrupted_write point st i p) = committed st"
    by (rule committed_interrupted_write)
next
  assume "\<not> exists_record st i"
  then show "\<not> exists_record (interrupted_write point st i p) i"
    by (simp add: exists_record_def exists_at_def committed_interrupted_write)
next
  show "exists_record (write_record st i p) i"
    by (simp add: exists_record_def exists_at_def committed_write_record)
next
  show "read_record (write_record st i p) i = Inr p"
    by (simp add: read_record_def read_at_def committed_write_record)
qed

theorem no_partial_record_witness:
  "get_structure_by_material_id example_collaborators ''mp-0'' = Inl (RemoteLookupError ''mp-0'')
   \<and> (\<forall>m. GenerateBulk ''mp-0'' \<noteq> FindBulk m)
   \<and> fst (run example_collaborators (\<lambda>m st. (None, st)) (GenerateBulk ''mp-0'') empty_store) \<noteq> None
   \<and> \<not> exists_record empty_store (identity (GenerateBulk ''mp-0''))
   \<and> GenerateBulk_run example_collaborators ''mp-0'' empty_store =
       (Some (RemoteLookupError ''mp-0''), empty_store)
   \<and> snd (run example_collaborators (\<lambda>m st. (None, st)) (GenerateBulk ''mp-0'') empty_store) = empty_store
   \<and> \<not> exists_record
         (interrupted_write BeforePublish empty_store (identity (GenerateBulk ''mp-0'')) (Doc Map.empty))
         (identity (GenerateBulk ''mp-0''))
   \<and> exists_record (write_record empty_store (identity (GenerateBulk ''mp-0'')) (Doc Map.empty))
         (identity (GenerateBulk ''mp-0''))"
proof -
  have h1: "get_structure_by_material_id example_collaborators ''mp-0'' = Inl (RemoteLookupError ''mp-0'')"
    by (rule ex_lookup_fails)
  have h2: "\<forall>m. GenerateBulk ''mp-0'' \<noteq> FindBulk m" by simp
  have h3: "fst (run example_collaborators (\<lambda>m st. (None, st)) (GenerateBulk ''mp-0'') empty_store) \<noteq> None"
    by (simp add: GenerateBulk_run_def ex_lookup_fails)
  have h4: "\<not> exists_record empty_store (identity (GenerateBulk ''mp-0''))"
    by (simp add: exists_record_def exists_at_def empty_store_def)
  from no_partial_record [of example_collaborators "''mp-0''" "RemoteLookupError ''mp-0''" empty_store
      "GenerateBulk ''mp-0''" "\<lambda>m st. (None, st)" BeforePublish "identity (GenerateBulk ''mp-0'')" "Doc Map.empty"]
    h1 h2 h3 h4
  show ?thesis by blast
qed


section \<open>Properties of the task identity\<close>

lemma canonical_entries_keys:
  "map fst (map (\<lambda>(k, v). (k, canonical v)) kvs) = map fst kvs"
  by (induction kvs) auto

lemma canonical_entries_map_of:
  "map_of (map (\<lambda>(k, v). (k, canonical v)) kvs) k = map_option canonical (map_of kvs k)"
  by (induction kvs) auto

lemma same_value_canonical: "same_value v w \<Longrightarrow> canonical v = canonical w"
proof (induction rule: same_value.induct)
  case (same_refl v)
  show ?case by simp
next
  case (same_seq xs ys)
  then have "map canonical xs = map canonical ys"
    by (induction xs ys rule: list_all2_induct) simp_all
  then show ?case by simp
next
  case (same_dict kvs kvs')
  let ?A = "map (\<lambda>(k, v). (k, canonical v)) kvs"
  let ?B = "map (\<lambda>(k, v). (k, canonical v)) kvs'"
  have dA: "distinct (map fst ?A)" and dB: "distinct (map fst ?B)"
    using same_dict(1,2) by (simp_all only: canonical_entries_keys)
  have "map_of ?A k = map_of ?B k" for k
  proof -
    from same_dict(3) have "rel_option (\<lambda>x y. same_value x y \<and> canonical x = canonical y)
        (map_of kvs k) (map_of kvs' k)" by blast
    then have "map_option canonical (map_of kvs k) = map_option canonical (map_of kvs' k)"
      by (cases "map_of kvs k"; cases "map_of kvs' k") simp_all
    then show ?thesis by (simp only: canonical_entries_map_of)
  qed
  then have "map_of ?A = map_of ?B" by (rule ext)
  with dA dB have sets: "set ?A = set ?B" by (simp only: map_of_inject_set)
  have "distinct ?A" and "distinct ?B"
    using dA dB by (simp_all only: distinct_map)
  with sets have ms: "mset ?A = mset ?B" by (simp only: set_eq_iff_mset_eq_distinct)
  have inj: "inj_on fst (set ?A)" using dA by (simp only: distinct_map)
  have "sort_key fst ?A = sort_key fst ?B"
    using ms inj by (rule sort_key_eq_sort_key)
  then show ?case by simp
qed

lemma same_params_canonical:
  "same_params ps qs \<Longrightarrow>
     map (\<lambda>(name, v). (name, canonical v)) ps = map (\<lambda>(name, v). (name, canonical v)) qs"
  unfolding same_params_def
  by (induction ps qs rule: list_all2_induct) (auto simp: same_value_canonical)

text \<open>
  C4. Two tasks of the same type whose parameters are equal, mappings being compared
  without regard to the order of their keys, have the same identity and the same output
  location. Identity and location are functions of the task's type and parameters alone:
  they take no store, no heap and no collaborator.
\<close>

theorem identity_deterministic:
  assumes "task_family t1 = task_family t2" and "same_params (params t1) (params t2)"
  shows "identity t1 = identity t2 \<and> task_output t1 = task_output t2"
  using assms
  by (simp add: identity_def task_output_def make_task_output_object_def same_params_canonical)

theorem identity_deterministic_witness:
  "task_family (GenerateSlabs ''mp-30'' (1, 1, 1) [(''min_slab_size'', PyFloat 7), (''min_vacuum_size'', PyFloat 20)] [(''tol'', PyFloat 0.1)])
     = task_family (GenerateSlabs ''mp-30'' (1, 1, 1) [(''min_vacuum_size'', PyFloat 20), (''min_slab_size'', PyFloat 7)] [(''tol'', PyFloat 0.1)])
   \<and> same_params
       (params (GenerateSlabs ''mp-30'' (1, 1, 1) [(''min_slab_size'', PyFloat 7), (''min_vacuum_size'', PyFloat 20)] [(''tol'', PyFloat 0.1)]))
       (params (GenerateSlabs ''mp-30'' (1, 1, 1) [(''min_vacuum_size'', PyFloat 20), (''min_slab_size'', PyFloat 7)] [(''tol'', PyFloat 0.1)]))
   \<and> identity (GenerateSlabs ''mp-30'' (1, 1, 1) [(''min_slab_size'', PyFloat 7), (''min_vacuum_size'', PyFloat 20)] [(''tol'', PyFloat 0.1)])
     = identity (GenerateSlabs ''mp-30'' (1, 1, 1) [(''min_vacuum_size'', PyFloat 20), (''min_slab_size'', PyFloat 7)] [(''tol'', PyFloat 0.1)])
   \<and> task_output (GenerateSlabs ''mp-30'' (1, 1, 1) [(''min_slab_size'', PyFloat 7), (''min_vacuum_size'', PyFloat 20)] [(''tol'', PyFloat 0.1)])
     = task_output (GenerateSlabs ''mp-30'' (1, 1, 1) [(''min_vacuum_size'', PyFloat 20), (''min_slab_size'', PyFloat 7)] [(''tol'', PyFloat 0.1)])"
proof -
  have fam: "task_family (GenerateSlabs ''mp-30'' (1, 1, 1) [(''min_slab_size'', PyFloat 7), (''min_vacuum_size'', PyFloat 20)] [(''tol'', PyFloat 0.1)])
     = task_family (GenerateSlabs ''mp-30'' (1, 1, 1) [(''min_vacuum_size'', PyFloat 20), (''min_slab_size'', PyFloat 7)] [(''tol'', PyFloat 0.1)])"
    by simp
  have dict: "same_value (PyDict [(''min_slab_size'', PyFloat 7), (''min_vacuum_size'', PyFloat 20)])
                (PyDict [(''min_vacuum_size'', PyFloat 20), (''min_slab_size'', PyFloat 7)])"
    by (rule same_dict) (auto intro: same_refl)
  have par: "same_params
       (params (GenerateSlabs ''mp-30'' (1, 1, 1) [(''min_slab_size'', PyFloat 7), (''min_vacuum_size'', PyFloat 20)] [(''tol'', PyFloat 0.1)]))
       (params (GenerateSlabs ''mp-30'' (1, 1, 1) [(''min_vacuum_size'', PyFloat 20), (''min_slab_size'', PyFloat 7)] [(''tol'', PyFloat 0.1)]))"
    using dict by (simp add: same_params_def same_refl)
  from identity_deterministic [OF fam par] fam par show ?thesis by blast
qed


section \<open>Properties of the resolver\<close>

lemma resolve_noop:
  "(\<forall>i \<in> identities n. exists_record (out_store rs) i) \<Longrightarrow> resolve n rs = (Done, rs)"
  "(\<forall>n \<in> set ns. \<forall>i \<in> identities n. exists_record (out_store rs) i) \<Longrightarrow> resolve_all ns rs = (True, rs)"
proof (induction n rs and ns rs rule: resolve_resolve_all.induct)
  case (1 i deps exec rs)
  then show ?case by simp
next
  case (2 rs)
  show ?case by simp
next
  case (3 d ds rs)
  then show ?case by simp
qed

lemma resolve_grows:
  "resolve n rs = (s, rs') \<Longrightarrow>
     (\<exists>fs. failures rs' = failures rs @ fs)
     \<and> (\<exists>ex. executed rs' = executed rs @ ex \<and> set ex \<subseteq> identities n)"
  "resolve_all ns rs = (ok, rs') \<Longrightarrow>
     (\<exists>fs. failures rs' = failures rs @ fs)
     \<and> (\<exists>ex. executed rs' = executed rs @ ex \<and> set ex \<subseteq> (\<Union>n \<in> set ns. identities n))"
proof (induction n rs and ns rs arbitrary: s rs' and ok rs' rule: resolve_resolve_all.induct)
  case (1 i deps exec rs)
  obtain dd rs1 where deps: "resolve_all deps rs = (dd, rs1)"
    by (cases "resolve_all deps rs")
  from "1.IH" [OF deps] obtain fs ex where
    f: "failures rs1 = failures rs @ fs" and e: "executed rs1 = executed rs @ ex"
    and sub: "set ex \<subseteq> (\<Union>n \<in> set deps. identities n)"
    by blast
  from "1.prems" deps f e sub show ?case
    by (auto split: if_splits prod.splits option.splits)
next
  case (2 rs)
  then show ?case by simp
next
  case (3 d ds rs)
  obtain s1 rs1 where d: "resolve d rs = (s1, rs1)" by (cases "resolve d rs")
  obtain ok2 rs2 where ds: "resolve_all ds rs1 = (ok2, rs2)" by (cases "resolve_all ds rs1")
  from "3.IH"(1) [OF d] obtain fs ex where
    f: "failures rs1 = failures rs @ fs" and e: "executed rs1 = executed rs @ ex"
    and sub: "set ex \<subseteq> identities d"
    by blast
  from "3.IH"(2) [OF d [symmetric] ds] obtain fs2 ex2 where
    f2: "failures rs2 = failures rs1 @ fs2" and e2: "executed rs2 = executed rs1 @ ex2"
    and sub2: "set ex2 \<subseteq> (\<Union>n \<in> set ds. identities n)"
    by blast
  from "3.prems" d ds have "rs' = rs2" by simp
  with f e sub f2 e2 sub2 show ?case by auto
qed


lemma writes_own_record_success:
  "writes_own_record (Node i deps exec) \<Longrightarrow> exec st = (None, st') \<Longrightarrow>
     \<exists>p. committed st' = (committed st)(location_for i \<mapsto> p)"
  unfolding writes_own_record_def by (drule spec [of _ st]) simp

lemma writes_own_record_failure:
  "writes_own_record (Node i deps exec) \<Longrightarrow> exec st = (Some e, st') \<Longrightarrow>
     committed st' = committed st"
  unfolding writes_own_record_def by (drule spec [of _ st]) simp

lemma resolve_store:
  "(\<forall>m \<in> nodes_of n. writes_own_record m) \<Longrightarrow> resolve n rs = (s, rs') \<Longrightarrow>
     (\<forall>l. committed (out_store rs) l \<noteq> None \<longrightarrow> committed (out_store rs') l \<noteq> None)
     \<and> (\<forall>l. l \<notin> location_for ` identities n \<longrightarrow>
            committed (out_store rs') l = committed (out_store rs) l)"
  "(\<forall>n \<in> set ns. \<forall>m \<in> nodes_of n. writes_own_record m) \<Longrightarrow> resolve_all ns rs = (ok, rs') \<Longrightarrow>
     (\<forall>l. committed (out_store rs) l \<noteq> None \<longrightarrow> committed (out_store rs') l \<noteq> None)
     \<and> (\<forall>l. l \<notin> location_for ` (\<Union>n \<in> set ns. identities n) \<longrightarrow>
            committed (out_store rs') l = committed (out_store rs) l)"
proof (induction n rs and ns rs arbitrary: s rs' and ok rs' rule: resolve_resolve_all.induct)
  case (1 i deps exec rs)
  obtain dd rs1 where deps: "resolve_all deps rs = (dd, rs1)"
    by (cases "resolve_all deps rs")
  have wbd: "\<forall>n \<in> set deps. \<forall>m \<in> nodes_of n. writes_own_record m"
    using "1.prems"(1) by auto
  have own: "writes_own_record (Node i deps exec)"
    using "1.prems"(1) by simp
  from "1.IH" [OF wbd deps] have
    mono1: "\<forall>l. committed (out_store rs) l \<noteq> None \<longrightarrow> committed (out_store rs1) l \<noteq> None"
    and frame1: "\<forall>l. l \<notin> location_for ` (\<Union>n \<in> set deps. identities n) \<longrightarrow>
            committed (out_store rs1) l = committed (out_store rs) l"
    by blast+
  have step: "(\<forall>l. committed (out_store rs1) l \<noteq> None \<longrightarrow> committed (out_store rs') l \<noteq> None)
     \<and> (\<forall>l. l \<noteq> location_for i \<longrightarrow> committed (out_store rs') l = committed (out_store rs1) l)"
  proof (cases "exec (out_store rs1)")
    case (Pair r st')
    show ?thesis
    proof (cases r)
      case None
      from writes_own_record_success [OF own Pair [unfolded None]]
      obtain p where "committed st' = (committed (out_store rs1))(location_for i \<mapsto> p)" ..
      with "1.prems"(2) deps Pair None show ?thesis
        by (auto split: if_splits)
    next
      case (Some e)
      from writes_own_record_failure [OF own Pair [unfolded Some]]
      have "committed st' = committed (out_store rs1)" .
      with "1.prems"(2) deps Pair Some show ?thesis
        by (auto split: if_splits)
    qed
  qed
  show ?case
  proof (intro conjI allI impI)
    fix l assume "committed (out_store rs) l \<noteq> None"
    with mono1 step show "committed (out_store rs') l \<noteq> None" by blast
  next
    fix l assume l: "l \<notin> location_for ` identities (Node i deps exec)"
    then have "l \<noteq> location_for i" and "l \<notin> location_for ` (\<Union>n \<in> set deps. identities n)"
      by auto
    with frame1 step show "committed (out_store rs') l = committed (out_store rs) l"
      by simp
  qed
next
  case (2 rs)
  then show ?case by simp
next
  case (3 d ds rs)
  obtain s1 rs1 where d: "resolve d rs = (s1, rs1)" by (cases "resolve d rs")
  obtain ok2 rs2 where ds: "resolve_all ds rs1 = (ok2, rs2)" by (cases "resolve_all ds rs1")
  have wb1: "\<forall>m \<in> nodes_of d. writes_own_record m"
    and wb2: "\<forall>n \<in> set ds. \<forall>m \<in> nodes_of n. writes_own_record m"
    using "3.prems"(1) by auto
  from "3.prems"(2) d ds have eq: "rs' = rs2" by simp
  from "3.IH"(1) [OF wb1 d] have
    a: "\<forall>l. committed (out_store rs) l \<noteq> None \<longrightarrow> committed (out_store rs1) l \<noteq> None"
    and b: "\<forall>l. l \<notin> location_for ` identities d \<longrightarrow>
            committed (out_store rs1) l = committed (out_store rs) l"
    by blast+
  from "3.IH"(2) [OF d [symmetric] wb2 ds] have
    c: "\<forall>l. committed (out_store rs1) l \<noteq> None \<longrightarrow> committed (out_store rs2) l \<noteq> None"
    and e: "\<forall>l. l \<notin> location_for ` (\<Union>n \<in> set ds. identities n) \<longrightarrow>
            committed (out_store rs2) l = committed (out_store rs1) l"
    by blast+
  show ?case
  proof (intro conjI allI impI)
    fix l assume "committed (out_store rs) l \<noteq> None"
    with a c eq show "committed (out_store rs') l \<noteq> None" by blast
  next
    fix l assume "l \<notin> location_for ` (\<Union>n \<in> set (d # ds). identities n)"
    then have "l \<notin> location_for ` identities d"
      and "l \<notin> location_for ` (\<Union>n \<in> set ds. identities n)"
      by auto
    with b e eq show "committed (out_store rs') l = committed (out_store rs) l" by simp
  qed
qed


lemma resolve_without_failure:
  "(\<forall>m \<in> nodes_of n. writes_own_record m) \<Longrightarrow> resolve n rs = (s, rs') \<Longrightarrow> failures rs' = [] \<Longrightarrow>
     s = Done \<and> (\<forall>i \<in> identities n. exists_record (out_store rs') i)"
  "(\<forall>n \<in> set ns. \<forall>m \<in> nodes_of n. writes_own_record m) \<Longrightarrow> resolve_all ns rs = (ok, rs') \<Longrightarrow>
     failures rs' = [] \<Longrightarrow>
     ok \<and> (\<forall>n \<in> set ns. \<forall>i \<in> identities n. exists_record (out_store rs') i)"
proof (induction n rs and ns rs arbitrary: s rs' and ok rs' rule: resolve_resolve_all.induct)
  case (1 i deps exec rs)
  obtain dd rs1 where deps: "resolve_all deps rs = (dd, rs1)"
    by (cases "resolve_all deps rs")
  have wbd: "\<forall>n \<in> set deps. \<forall>m \<in> nodes_of n. writes_own_record m"
    using "1.prems"(1) by auto
  have own: "writes_own_record (Node i deps exec)"
    using "1.prems"(1) by simp
  from "1.prems"(2) deps "1.prems"(3) have nofail1: "failures rs1 = []"
    by (auto split: if_splits prod.splits option.splits)
  from "1.IH" [OF wbd deps nofail1] have dd: dd
    and ex1: "\<forall>n \<in> set deps. \<forall>j \<in> identities n. exists_record (out_store rs1) j"
    by blast+
  show ?case
  proof (cases "exists_record (out_store rs1) i")
    case True
    with "1.prems"(2) deps have "s = Done" "rs' = rs1" by simp_all
    with True ex1 show ?thesis by auto
  next
    case False
    obtain r st' where run: "exec (out_store rs1) = (r, st')" by (cases "exec (out_store rs1)")
    from "1.prems"(2,3) deps False dd nofail1 run have r: "r = None"
      by (cases r) auto
    from "1.prems"(2) deps False dd nofail1 run r
    have s: "s = Done" and st: "out_store rs' = st'" by auto
    from writes_own_record_success [OF own run [unfolded r]]
    obtain p where com: "committed st' = (committed (out_store rs1))(location_for i \<mapsto> p)" ..
    have "exists_record (out_store rs') i"
      using st com by (simp add: exists_record_def exists_at_def)
    moreover have "\<forall>n \<in> set deps. \<forall>j \<in> identities n. exists_record (out_store rs') j"
      using ex1 st com by (simp add: exists_record_def exists_at_def)
    ultimately show ?thesis using s by auto
  qed
next
  case (2 rs)
  then show ?case by simp
next
  case (3 d ds rs)
  obtain s1 rs1 where d: "resolve d rs = (s1, rs1)" by (cases "resolve d rs")
  obtain ok2 rs2 where ds: "resolve_all ds rs1 = (ok2, rs2)" by (cases "resolve_all ds rs1")
  have wb1: "\<forall>m \<in> nodes_of d. writes_own_record m"
    and wb2: "\<forall>n \<in> set ds. \<forall>m \<in> nodes_of n. writes_own_record m"
    using "3.prems"(1) by auto
  from "3.prems"(2) d ds have eq: "rs' = rs2" and ok: "ok = (s1 = Done \<and> ok2)" by simp_all
  from resolve_grows(2) [OF ds] "3.prems"(3) eq have nofail1: "failures rs1 = []" by auto
  from "3.IH"(1) [OF wb1 d nofail1] have s1: "s1 = Done"
    and ex1: "\<forall>i \<in> identities d. exists_record (out_store rs1) i"
    by blast+
  from "3.IH"(2) [OF d [symmetric] wb2 ds] "3.prems"(3) eq have ok2: ok2
    and ex2: "\<forall>n \<in> set ds. \<forall>i \<in> identities n. exists_record (out_store rs2) i"
    by blast+
  from resolve_store(2) [OF wb2 ds] ex1
  have "\<forall>i \<in> identities d. exists_record (out_store rs2) i"
    by (simp add: exists_record_def exists_at_def)
  with ex2 s1 ok2 ok eq show ?case by auto
qed

lemma resolve_skips_existing:
  "(\<forall>m \<in> nodes_of n. writes_own_record m) \<Longrightarrow> resolve n rs = (s, rs') \<Longrightarrow>
     exists_record (out_store rs) j \<Longrightarrow> j \<notin> set (executed rs) \<Longrightarrow> j \<notin> set (executed rs')"
  "(\<forall>n \<in> set ns. \<forall>m \<in> nodes_of n. writes_own_record m) \<Longrightarrow> resolve_all ns rs = (ok, rs') \<Longrightarrow>
     exists_record (out_store rs) j \<Longrightarrow> j \<notin> set (executed rs) \<Longrightarrow> j \<notin> set (executed rs')"
proof (induction n rs and ns rs arbitrary: s rs' and ok rs' rule: resolve_resolve_all.induct)
  case (1 i deps exec rs)
  obtain dd rs1 where deps: "resolve_all deps rs = (dd, rs1)"
    by (cases "resolve_all deps rs")
  have wbd: "\<forall>n \<in> set deps. \<forall>m \<in> nodes_of n. writes_own_record m"
    using "1.prems"(1) by auto
  from "1.IH" [OF wbd deps "1.prems"(3,4)] have nj: "j \<notin> set (executed rs1)" .
  from resolve_store(2) [OF wbd deps] "1.prems"(3)
  have exj: "exists_record (out_store rs1) j"
    by (simp add: exists_record_def exists_at_def)
  from "1.prems"(2) deps nj exj show ?case
    by (auto split: if_splits prod.splits option.splits)
next
  case (2 rs)
  then show ?case by simp
next
  case (3 d ds rs)
  obtain s1 rs1 where d: "resolve d rs = (s1, rs1)" by (cases "resolve d rs")
  obtain ok2 rs2 where ds: "resolve_all ds rs1 = (ok2, rs2)" by (cases "resolve_all ds rs1")
  have wb1: "\<forall>m \<in> nodes_of d. writes_own_record m"
    and wb2: "\<forall>n \<in> set ds. \<forall>m \<in> nodes_of n. writes_own_record m"
    using "3.prems"(1) by auto
  from "3.prems"(2) d ds have eq: "rs' = rs2" by simp
  from "3.IH"(1) [OF wb1 d "3.prems"(3,4)] have nj: "j \<notin> set (executed rs1)" .
  from resolve_store(1) [OF wb1 d] "3.prems"(3)
  have exj: "exists_record (out_store rs1) j"
    by (simp add: exists_record_def exists_at_def)
  from "3.IH"(2) [OF d [symmetric] wb2 ds exj nj] eq show ?case by simp
qed


lemma root_executed_once:
  assumes wb: "\<forall>m \<in> nodes_of (Node i deps exec). writes_own_record m"
    and run: "resolve (Node i deps exec) \<lparr>out_store = st, executed = [], failures = []\<rparr> = (s, rs')"
    and nofail: "failures rs' = []"
    and fresh: "\<not> exists_record st i"
    and acyclic: "i \<notin> (\<Union>d \<in> set deps. identities d)"
  shows "count_list (executed rs') i = 1"
proof -
  let ?rs0 = "\<lparr>out_store = st, executed = [], failures = []\<rparr>"
  obtain dd rs1 where deps: "resolve_all deps ?rs0 = (dd, rs1)"
    by (cases "resolve_all deps ?rs0")
  have wbd: "\<forall>n \<in> set deps. \<forall>m \<in> nodes_of n. writes_own_record m"
    using wb by auto
  from run deps nofail have nofail1: "failures rs1 = []"
    by (auto split: if_splits prod.splits option.splits)
  from resolve_without_failure(2) [OF wbd deps nofail1] have dd: dd by blast
  from resolve_grows(2) [OF deps] obtain ex where
    ex: "executed rs1 = ex" and sub: "set ex \<subseteq> (\<Union>n \<in> set deps. identities n)"
    by auto
  have "location_for i \<notin> location_for ` (\<Union>n \<in> set deps. identities n)"
    using acyclic by (auto simp: location_for_inject)
  with resolve_store(2) [OF wbd deps]
  have "committed (out_store rs1) (location_for i) = committed st (location_for i)"
    by simp
  with fresh have fresh1: "\<not> exists_record (out_store rs1) i"
    by (simp add: exists_record_def exists_at_def)
  obtain r st' where exec: "exec (out_store rs1) = (r, st')" by (cases "exec (out_store rs1)")
  from run deps fresh1 nofail1 dd exec nofail have "executed rs' = ex @ [i]"
    by (cases r) (auto simp: ex)
  moreover have "i \<notin> set ex" using sub acyclic by auto
  ultimately show ?thesis by simp
qed

text \<open>
  C3 (amended). Let every task of the dependency tree write no record but its own, and
  only when it succeeds, as the tasks of this module do. Then a run executes no task
  whose record exists when the run starts. If a run reports no failure, the root is done
  and its record exists, and a second run from the store the first one leaves executes
  nothing and changes nothing. If moreover the root had no record at the start and is
  not among its own dependencies, its computation is invoked exactly once over the two
  runs.
\<close>

theorem resolve_twice:
  assumes wb: "\<forall>m \<in> nodes_of root_node. writes_own_record m"
  shows "(\<forall>i. exists_record st i \<longrightarrow> i \<notin> set (executed (snd (resolve_and_run root_node st))))
   \<and> (failures (snd (resolve_and_run root_node st)) = [] \<longrightarrow>
        fst (resolve_and_run root_node st) = Done
        \<and> exists_record (out_store (snd (resolve_and_run root_node st))) (node_identity root_node)
        \<and> resolve_and_run root_node (out_store (snd (resolve_and_run root_node st))) =
            (Done, \<lparr>out_store = out_store (snd (resolve_and_run root_node st)),
                    executed = [], failures = []\<rparr>))
   \<and> (failures (snd (resolve_and_run root_node st)) = []
        \<and> \<not> exists_record st (node_identity root_node)
        \<and> node_identity root_node \<notin> (\<Union>d \<in> set (node_dependencies root_node). identities d) \<longrightarrow>
        count_list
          (executed (snd (resolve_and_run root_node st))
           @ executed (snd (resolve_and_run root_node (out_store (snd (resolve_and_run root_node st))))))
          (node_identity root_node) = 1)"
proof -
  let ?rs0 = "\<lparr>out_store = st, executed = [], failures = []\<rparr>"
  obtain s rs' where run: "resolve root_node ?rs0 = (s, rs')"
    by (cases "resolve root_node ?rs0")
  then have rr: "resolve_and_run root_node st = (s, rs')"
    by (simp add: resolve_and_run_def)
  obtain i deps exec where root: "root_node = Node i deps exec" by (cases root_node)
  have skip: "\<forall>j. exists_record st j \<longrightarrow> j \<notin> set (executed rs')"
  proof (intro allI impI)
    fix j assume "exists_record st j"
    with resolve_skips_existing(1) [OF wb run, of j] show "j \<notin> set (executed rs')" by simp
  qed
  have second: "s = Done \<and> exists_record (out_store rs') (node_identity root_node)
      \<and> resolve_and_run root_node (out_store rs') =
            (Done, \<lparr>out_store = out_store rs', executed = [], failures = []\<rparr>)"
    if nofail: "failures rs' = []"
  proof -
    from resolve_without_failure(1) [OF wb run nofail]
    have s: "s = Done" and all: "\<forall>j \<in> identities root_node. exists_record (out_store rs') j"
      by blast+
    from all have "exists_record (out_store rs') (node_identity root_node)"
      by (simp add: root)
    moreover from all have "resolve_and_run root_node (out_store rs') =
            (Done, \<lparr>out_store = out_store rs', executed = [], failures = []\<rparr>)"
      unfolding resolve_and_run_def by (intro resolve_noop(1)) simp
    ultimately show ?thesis using s by simp
  qed
  have once: "count_list (executed rs' @ executed (snd (resolve_and_run root_node (out_store rs'))))
          (node_identity root_node) = 1"
    if nofail: "failures rs' = []" and fresh: "\<not> exists_record st (node_identity root_node)"
      and acyclic: "node_identity root_node \<notin> (\<Union>d \<in> set (node_dependencies root_node). identities d)"
  proof -
    from second [OF nofail] have "executed (snd (resolve_and_run root_node (out_store rs'))) = []"
      by simp
    moreover have "count_list (executed rs') i = 1"
      using root_executed_once [of i deps exec st s rs'] wb run nofail fresh acyclic
      by (simp add: root)
    ultimately show ?thesis by (simp add: root)
  qed
  show ?thesis
    unfolding rr fst_conv snd_conv
    using skip second once by blast
qed


lemma location_of_identity: "location_for (identity t) = task_output t"
  by (simp add: task_output_def make_task_output_object_def)

lemma run_writes_own_record:
  assumes "\<forall>m. t \<noteq> FindBulk m"
  shows "writes_own_record (Node (identity t) deps (run env FindBulk_run t))"
proof (cases t)
  case (GenerateGas gas)
  show ?thesis
    unfolding writes_own_record_def GenerateGas
    by (auto simp add: GenerateGas_run_outcome location_of_identity committed_save_task_output
        split: option.split)
next
  case (GenerateBulk mp)
  show ?thesis
    unfolding writes_own_record_def GenerateBulk
    by (auto simp add: GenerateBulk_run_outcome location_of_identity committed_save_task_output
        split: sum.split)
next
  case (FindBulk mp)
  with assms show ?thesis by simp
next
  case (GenerateSlabs mp miller sgs gss)
  show ?thesis
    unfolding writes_own_record_def GenerateSlabs
    by (auto simp add: GenerateSlabs_run_outcome location_of_identity committed_save_task_output
        split: sum.split payload.split)
next
  case (GenerateAdsorptionSites mp miller sgs gss mxy)
  show ?thesis
    unfolding writes_own_record_def GenerateAdsorptionSites
    by (auto simp add: GenerateAdsorptionSites_run_outcome location_of_identity
        committed_save_task_output split: sum.split payload.split)
qed

lemma example_FindBulk_node_writes_own_record:
  "\<forall>m \<in> nodes_of (example_FindBulk_node mp). writes_own_record m"
  by (auto simp add: example_FindBulk_node_def writes_own_record_def location_of_identity
      committed_save_task_output)

lemma task_node_writes_own_record:
  assumes "\<forall>mp. \<forall>m \<in> nodes_of (FindBulk_node mp). writes_own_record m"
  shows "\<forall>m \<in> nodes_of (task_node env FindBulk_node t). writes_own_record m"
proof (cases t)
  case (GenerateGas gas)
  show ?thesis
    using run_writes_own_record [where t = "GenerateGas gas" and deps = "[]" and env = env]
    by (simp add: GenerateGas)
next
  case (GenerateBulk mp)
  show ?thesis
    using run_writes_own_record [where t = "GenerateBulk mp" and deps = "[]" and env = env]
    by (simp add: GenerateBulk)
next
  case (FindBulk mp)
  with assms show ?thesis by simp
next
  case (GenerateSlabs mp miller sgs gss)
  show ?thesis
    using run_writes_own_record [where t = "GenerateSlabs mp miller sgs gss" and deps = "[FindBulk_node mp]" and env = env]
      assms
    by (simp add: GenerateSlabs GenerateSlabs_node_def)
next
  case (GenerateAdsorptionSites mp miller sgs gss mxy)
  show ?thesis
    using run_writes_own_record [where t = "GenerateSlabs mp miller sgs gss" and deps = "[FindBulk_node mp]" and env = env]
      run_writes_own_record [where t = "GenerateAdsorptionSites mp miller sgs gss mxy" and deps = "[GenerateSlabs_node env FindBulk_node mp miller sgs gss]" and env = env]
      assms
    by (simp add: GenerateAdsorptionSites GenerateSlabs_node_def)
qed

lemma example_pipeline_run:
  "failures (snd (resolve_and_run
      (task_node example_collaborators example_FindBulk_node
         (GenerateAdsorptionSites ''mp-30'' (1, 1, 1) [] [] 5)) empty_store)) = []"
  by (simp add: resolve_and_run_def GenerateSlabs_node_def example_FindBulk_node_def
      exists_record_def exists_at_def empty_store_def committed_save_task_output
      GenerateSlabs_run_outcome GenerateAdsorptionSites_run_outcome read_at_def
      make_adslab_docs_result task_output_def make_task_output_object_def identity_def
      location_for_def py_miller_def)


theorem resolve_twice_witness:
  "failures (snd (resolve_and_run example_root empty_store)) = []
   \<and> \<not> exists_record empty_store (node_identity example_root)
   \<and> node_identity example_root \<notin> (\<Union>d \<in> set (node_dependencies example_root). identities d)
   \<and> fst (resolve_and_run example_root empty_store) = Done
   \<and> resolve_and_run example_root (out_store (snd (resolve_and_run example_root empty_store))) =
        (Done, \<lparr>out_store = out_store (snd (resolve_and_run example_root empty_store)),
                executed = [], failures = []\<rparr>)
   \<and> count_list
        (executed (snd (resolve_and_run example_root empty_store))
         @ executed (snd (resolve_and_run example_root
                            (out_store (snd (resolve_and_run example_root empty_store))))))
        (node_identity example_root) = 1"
proof -
  have wb: "\<forall>m \<in> nodes_of example_root. writes_own_record m"
    unfolding example_root_def
    by (rule task_node_writes_own_record) (simp add: example_FindBulk_node_writes_own_record)
  have nofail: "failures (snd (resolve_and_run example_root empty_store)) = []"
    unfolding example_root_def by (rule example_pipeline_run)
  have fresh: "\<not> exists_record empty_store (node_identity example_root)"
    by (simp add: exists_record_def exists_at_def empty_store_def)
  have acyclic: "node_identity example_root \<notin> (\<Union>d \<in> set (node_dependencies example_root). identities d)"
    by (simp add: example_root_def GenerateSlabs_node_def example_FindBulk_node_def identity_def)
  from resolve_twice [OF wb, of empty_store] nofail fresh acyclic
  show ?thesis by blast
qed

text \<open>
  C3 as stated fails for a task whose execution raises: no record is written, so the
  second run executes the task again. Retrieving an unknown bulk runs twice in two runs.
\<close>

theorem resolve_twice_counterexample:
  "count_list
     (executed (snd (resolve_and_run example_failing_root empty_store))
      @ executed (snd (resolve_and_run example_failing_root
                         (out_store (snd (resolve_and_run example_failing_root empty_store))))))
     (node_identity example_failing_root) = 2"
proof -
  have run: "resolve_and_run example_failing_root empty_store =
      (Failed, \<lparr>out_store = empty_store,
                executed = [identity (GenerateBulk ''mp-0'')],
                failures = [(identity (GenerateBulk ''mp-0''), ExecutionError (RemoteLookupError ''mp-0''))]\<rparr>)"
    by (simp add: example_failing_root_def resolve_and_run_def GenerateBulk_run_def ex_lookup_fails
        exists_record_def exists_at_def empty_store_def)
  show ?thesis
    by (simp add: run) (simp add: example_failing_root_def)
qed


end
